theory Spec2Isabelle
  imports Complex_Main "HOL-Library.Sublist" "HOL-Library.List_Lexorder" "HOL-Library.Multiset"
begin

section \<open>The summarizer of wechat-view: internal/summarize/summary.go\<close>

text \<open>
  A shallow embedding of \<^verbatim>\<open>BuildSummary\<close> and the functions it calls.

  \<^item> A Go string is modelled by the sequence of its code points, which is what
    \<^verbatim>\<open>range\<close>, \<^verbatim>\<open>[]rune(s)\<close> and the \<^verbatim>\<open>unicode\<close> predicates see. The messages come
    from \<^verbatim>\<open>encoding/json\<close>, so they are valid UTF-8, and on valid UTF-8 the byte-wise
    \<^verbatim>\<open>strings.Contains\<close>, \<^verbatim>\<open>strings.HasPrefix\<close> and \<^verbatim>\<open><\<close> agree with their
    code-point versions.
  \<^item> Go's \<^verbatim>\<open>int\<close> counters are \<open>nat\<close> (they only ever count up from zero), the
    \<^verbatim>\<open>int64\<close> timestamps and the message type are \<open>int\<close>; no arithmetic on them can
    leave the 64-bit range.
  \<^item> A \<^verbatim>\<open>float64\<close> value is modelled by the real number it stands for. The operations of
    \<^verbatim>\<open>buildGroupVibes\<close> and \<^verbatim>\<open>roundTo\<close> round their exact result to the nearest
    \<^verbatim>\<open>float64\<close>, operation by operation, as IEEE 754 arithmetic does. The sentiment
    totals are sums of 1 and 1/2 and the same in \<^verbatim>\<open>float64\<close>; for the durations in
    minutes, their sum and their mean, the rounding error is not part of the model.
  \<^item> What the code takes from the Go runtime and standard library with tables too
    large to write down (Unicode case and category tables, the local time zone, RFC 3339
    parsing and printing, \<^verbatim>\<open>url.Parse\<close>, \<^verbatim>\<open>fmt.Sprintf\<close>, the iteration order of a
    \<^verbatim>\<open>map\<close>) is a field of the record \<open>env\<close>, and so are the string tables of
    \<^verbatim>\<open>summary.go\<close> whose entries are not ASCII (lexicons, stop words, display texts):
    every theorem holds for all of them.
\<close>

subsection \<open>Strings\<close>

type_synonym rune = nat
type_synonym gostring = "rune list"

text \<open>An ASCII literal of the source.\<close>

definition S :: "string \<Rightarrow> gostring" where
  "S s = map of_char s"

text \<open>\<^verbatim>\<open>unicode.IsSpace\<close>: the White Space property, a fixed set of 25 code points.\<close>

definition IsSpace :: "rune \<Rightarrow> bool" where
  "IsSpace r \<longleftrightarrow>
     (0x09 \<le> r \<and> r \<le> 0x0D) \<or> r = 0x20 \<or> r = 0x85 \<or> r = 0xA0 \<or> r = 0x1680 \<or>
     (0x2000 \<le> r \<and> r \<le> 0x200A) \<or> r = 0x2028 \<or> r = 0x2029 \<or> r = 0x202F \<or>
     r = 0x205F \<or> r = 0x3000"

definition TrimSpace :: "gostring \<Rightarrow> gostring" where
  "TrimSpace s = rev (dropWhile IsSpace (rev (dropWhile IsSpace s)))"

text \<open>\<^verbatim>\<open>strings.TrimRight(s, cutset)\<close>.\<close>

definition TrimRight :: "gostring \<Rightarrow> gostring \<Rightarrow> gostring" where
  "TrimRight s cutset = rev (dropWhile (\<lambda>r. r \<in> set cutset) (rev s))"

text \<open>\<^verbatim>\<open>strings.Fields\<close>: the maximal runs of non-space code points; \<open>cur\<close> is the run
  being read.\<close>

fun fields_from :: "gostring \<Rightarrow> gostring \<Rightarrow> gostring list" where
  "fields_from cur [] = (if cur = [] then [] else [cur])"
| "fields_from cur (r # rs) =
     (if IsSpace r then (if cur = [] then fields_from [] rs else cur # fields_from [] rs)
      else fields_from (cur @ [r]) rs)"

definition Fields :: "gostring \<Rightarrow> gostring list" where
  "Fields s = fields_from [] s"

text \<open>\<^verbatim>\<open>strings.Contains(s, substr)\<close>, \<^verbatim>\<open>strings.HasPrefix(s, p)\<close> and
  \<^verbatim>\<open>strings.ContainsAny(s, chars)\<close>.\<close>

definition Contains :: "gostring \<Rightarrow> gostring \<Rightarrow> bool" where
  "Contains s substr = sublist substr s"

definition HasPrefix :: "gostring \<Rightarrow> gostring \<Rightarrow> bool" where
  "HasPrefix s p = prefix p s"

definition ContainsAny :: "gostring \<Rightarrow> gostring \<Rightarrow> bool" where
  "ContainsAny s chars = list_ex (\<lambda>r. r \<in> set chars) s"

definition runeLen :: "gostring \<Rightarrow> nat" where
  "runeLen s = length s"

subsection \<open>Time\<close>

text \<open>
  A \<^verbatim>\<open>time.Time\<close> is an instant, in nanoseconds since the Unix epoch, and the offset
  in seconds of the zone it is shown in. The zero \<^verbatim>\<open>time.Time{}\<close> is
  0001-01-01T00:00:00 UTC, which is 62135596800 seconds before the epoch.
\<close>

record gtime =
  unixNano :: int
  zoneOffset :: int

definition zeroTime :: gtime where
  "zeroTime = \<lparr>unixNano = - 62135596800 * 1000000000, zoneOffset = 0\<rparr>"

definition IsZero :: "gtime \<Rightarrow> bool" where
  "IsZero t \<longleftrightarrow> unixNano t = unixNano zeroTime"

definition Before :: "gtime \<Rightarrow> gtime \<Rightarrow> bool" where
  "Before t u \<longleftrightarrow> unixNano t < unixNano u"

definition After :: "gtime \<Rightarrow> gtime \<Rightarrow> bool" where
  "After t u \<longleftrightarrow> unixNano t > unixNano u"

text \<open>\<^verbatim>\<open>t.Sub(u)\<close> is a \<^verbatim>\<open>Duration\<close>, an \<^verbatim>\<open>int64\<close> of nanoseconds that saturates;
  \<^verbatim>\<open>Minutes()\<close> turns it into a number of minutes.\<close>

definition Sub :: "gtime \<Rightarrow> gtime \<Rightarrow> int" where
  "Sub t u = max (- (2 ^ 63)) (min (2 ^ 63 - 1) (unixNano t - unixNano u))"

definition Minutes :: "int \<Rightarrow> real" where
  "Minutes d = real_of_int d / 60000000000"

text \<open>\<^verbatim>\<open>t.Hour()\<close>: the hour of the day in the zone of \<open>t\<close>, always below 24.\<close>

definition Hour :: "gtime \<Rightarrow> nat" where
  "Hour t = nat (((unixNano t div 1000000000 + zoneOffset t) mod 86400) div 3600)"

subsection \<open>The environment: runtime, standard library and non-ASCII tables\<close>

datatype fmt_arg = ArgInt int | ArgStr gostring

datatype text_id =
    FmtHeadline | LblTopSenders | LblTopics | Separator | FmtLinksHost | FmtLinks | FmtImages
  | ToneSteady | ToneHigh | ToneActive | ToneCold
  | FmtActivityHigh | TxtActivityLow | TxtSentimentPos | TxtSentimentNeg | TxtInfoDense
  | TxtControversyHigh | TxtControversyLow | Ellipsis

record env =
  ToLower :: "rune \<Rightarrow> rune"
  IsLetter :: "rune \<Rightarrow> bool"
  IsDigit :: "rune \<Rightarrow> bool"
  IsHan :: "rune \<Rightarrow> bool"
  localOffset :: "int \<Rightarrow> int"
  parseRFC3339 :: "gostring \<Rightarrow> gtime option"
  formatRFC3339 :: "gtime \<Rightarrow> gostring"
  urlHost :: "gostring \<Rightarrow> gostring option"
  fmtSprintf :: "gostring \<Rightarrow> fmt_arg list \<Rightarrow> gostring"
  mapRange :: "(gostring \<times> nat) list \<Rightarrow> (gostring \<times> nat) list"
  positiveLexicons :: "gostring list"
  negativeLexicons :: "gostring list"
  positiveEmojiSet :: "gostring list"
  negativeEmojiSet :: "gostring list"
  stopwordCN :: "gostring list"
  nameReplacerOld :: "gostring list"
  exclaimChars :: gostring
  literal :: "text_id \<Rightarrow> gostring"

text \<open>
  \<open>localOffset E s\<close> is the offset of the local zone at Unix second \<open>s\<close>;
  \<open>parseRFC3339 E s\<close> is \<open>None\<close> where \<^verbatim>\<open>time.Parse(time.RFC3339, s)\<close> returns an error;
  \<open>urlHost E u\<close> is \<open>None\<close> where \<^verbatim>\<open>url.Parse(u)\<close> returns an error, and the host
  otherwise; \<open>mapRange E m\<close> is the order in which a \<^verbatim>\<open>range\<close> over the map with the
  entries \<open>m\<close> visits them, which the Go runtime randomises: it is a permutation of \<open>m\<close>.
\<close>

definition valid_range :: "((gostring \<times> nat) list \<Rightarrow> (gostring \<times> nat) list) \<Rightarrow> bool" where
  "valid_range f \<longleftrightarrow> (\<forall>m. mset (f m) = mset m)"

text \<open>\<^verbatim>\<open>time.Unix(ts, 0).Local()\<close>.\<close>

definition UnixLocal :: "env \<Rightarrow> int \<Rightarrow> gtime" where
  "UnixLocal E ts = \<lparr>unixNano = ts * 1000000000, zoneOffset = localOffset E ts\<rparr>"

subsection \<open>Messages (internal/chatlog/client.go)\<close>

record Reference =
  ref_SenderName :: gostring
  ref_Content :: gostring

record Share =
  share_URL :: gostring

text \<open>The fields of \<^verbatim>\<open>chatlog.Message\<close> that the summarizer reads.\<close>

record Message =
  Sender :: gostring
  SenderName :: gostring
  From :: gostring
  Nickname :: gostring
  Timestamp :: int
  CreateTime :: int
  Time :: gostring
  Content :: gostring
  Text :: gostring
  MsgType :: int
  Mentions :: "gostring list"
  Emojis :: "gostring list"
  Reference :: "Reference option"
  IsQuestion :: bool
  Share :: "Share option"

subsection \<open>Helpers on names\<close>

text \<open>\<^verbatim>\<open>senderDisplay\<close>: the first of display name, nickname, raw id and "from" that is
  not blank.\<close>

definition senderDisplay :: "Message \<Rightarrow> gostring" where
  "senderDisplay m =
     (if TrimSpace (SenderName m) \<noteq> [] then SenderName m
      else if TrimSpace (Nickname m) \<noteq> [] then Nickname m
      else if TrimSpace (Sender m) \<noteq> [] then Sender m
      else if TrimSpace (From m) \<noteq> [] then From m
      else [])"

text \<open>\<^verbatim>\<open>nameReplacer.Replace\<close>: every old string of the table is replaced by the empty
  string. At each position the first old string of the table that starts there is
  removed; \<open>skip\<close> counts the code points of it still to drop.\<close>

fun replace_from :: "gostring list \<Rightarrow> nat \<Rightarrow> gostring \<Rightarrow> gostring" where
  "replace_from olds skip [] = []"
| "replace_from olds skip (r # rs) =
     (if skip > 0 then replace_from olds (skip - 1) rs
      else (case find (\<lambda>old. old \<noteq> [] \<and> prefix old (r # rs)) olds of
              Some old \<Rightarrow> replace_from olds (length old - 1) rs
            | None \<Rightarrow> r # replace_from olds 0 rs))"

definition nameReplacer_Replace :: "env \<Rightarrow> gostring \<Rightarrow> gostring" where
  "nameReplacer_Replace E s = replace_from (nameReplacerOld E) 0 s"

definition normalizeName :: "env \<Rightarrow> gostring \<Rightarrow> gostring" where
  "normalizeName E s =
     (if s = [] then []
      else let lower = map (ToLower E) (TrimSpace s);
               clean = nameReplacer_Replace E lower
           in filter (\<lambda>r. IsLetter E r \<or> IsDigit E r \<or> r = of_char CHR ''_'' \<or> IsHan E r) clean)"

text \<open>\<^verbatim>\<open>uniqueStrings\<close>: trimmed entries, without the blank ones and without those whose
  normalized name is empty or was seen before; \<open>seen\<close> is the set of keys of the map.\<close>

fun uniqueStrings_from :: "env \<Rightarrow> gostring list \<Rightarrow> gostring list \<Rightarrow> gostring list" where
  "uniqueStrings_from E seen [] = []"
| "uniqueStrings_from E seen (item # rest) =
     (let trim = TrimSpace item in
      if trim = [] then uniqueStrings_from E seen rest
      else let key = normalizeName E trim in
        if key = [] then uniqueStrings_from E seen rest
        else if key \<in> set seen then uniqueStrings_from E seen rest
        else trim # uniqueStrings_from E (key # seen) rest)"

definition uniqueStrings :: "env \<Rightarrow> gostring list \<Rightarrow> gostring list" where
  "uniqueStrings E xs = uniqueStrings_from E [] xs"

subsection \<open>The time of a message\<close>

definition messageTime :: "env \<Rightarrow> Message \<Rightarrow> gtime" where
  "messageTime E m =
     (if Timestamp m > 0 then
        UnixLocal E (if Timestamp m > 1000000000000 then Timestamp m div 1000 else Timestamp m)
      else if CreateTime m > 0 then
        UnixLocal E (if CreateTime m > 1000000000000 then CreateTime m div 1000 else CreateTime m)
      else if Time m \<noteq> [] then
        (case parseRFC3339 E (Time m) of Some t \<Rightarrow> t | None \<Rightarrow> zeroTime)
      else zeroTime)"

text \<open>The hour that the histogram block of \<^verbatim>\<open>BuildSummary\<close> derives: from
  \<^verbatim>\<open>Timestamp\<close>, or from \<^verbatim>\<open>CreateTime\<close> when \<^verbatim>\<open>Timestamp\<close> is 0, and only when
  that number is positive.\<close>

definition histogramHour :: "env \<Rightarrow> Message \<Rightarrow> nat option" where
  "histogramHour E m =
     (let ts = (if Timestamp m = 0 then CreateTime m else Timestamp m) in
      if ts > 0 then Some (Hour (UnixLocal E (if ts > 1000000000000 then ts div 1000 else ts)))
      else None)"

subsection \<open>Links and tokens\<close>

text \<open>\<^verbatim>\<open>extractURLs\<close>: the whitespace-separated parts that start with a scheme, without
  their trailing punctuation, each kept once (\<^verbatim>\<open>remdups\<close> would keep the last
  occurrence, the code keeps the first).\<close>

fun unique_from :: "gostring list \<Rightarrow> gostring list \<Rightarrow> gostring list" where
  "unique_from seen [] = []"
| "unique_from seen (u # us) =
     (if u \<in> set seen then unique_from seen us else u # unique_from (u # seen) us)"

definition extractURLs :: "gostring \<Rightarrow> gostring list" where
  "extractURLs s =
     (let urls = map (\<lambda>part. TrimRight part (S '',.;!?)]}''))
                   (filter (\<lambda>part. HasPrefix part (S ''http://'') \<or> HasPrefix part (S ''https://''))
                      (Fields s))
      in if urls = [] then urls else unique_from [] urls)"

text \<open>\<^verbatim>\<open>asciiTokens\<close>: every code point that is not an ASCII letter or digit becomes a
  space, then \<^verbatim>\<open>strings.Fields\<close>.\<close>

definition isAsciiAlnum :: "rune \<Rightarrow> bool" where
  "isAsciiAlnum r \<longleftrightarrow>
     (of_char CHR ''A'' \<le> r \<and> r \<le> of_char CHR ''Z'') \<or>
     (of_char CHR ''a'' \<le> r \<and> r \<le> of_char CHR ''z'') \<or>
     (of_char CHR ''0'' \<le> r \<and> r \<le> of_char CHR ''9'')"

definition asciiTokens :: "gostring \<Rightarrow> gostring list" where
  "asciiTokens s = Fields (map (\<lambda>r. if r > 127 then 0x20 else if isAsciiAlnum r then r else 0x20) s)"

text \<open>\<^verbatim>\<open>chineseGrams\<close>: \<open>flush\<close> emits the bigrams and then the trigrams of a run of
  Han code points.\<close>

definition ngrams :: "nat \<Rightarrow> gostring \<Rightarrow> gostring list" where
  "ngrams n seq = map (\<lambda>i. take n (drop i seq)) [0 ..< length seq + 1 - n]"

definition flush :: "gostring \<Rightarrow> gostring list" where
  "flush seq = (if length seq \<ge> 2 then ngrams 2 seq @ ngrams 3 seq else [])"

fun chineseGrams_from :: "env \<Rightarrow> gostring \<Rightarrow> gostring \<Rightarrow> gostring list" where
  "chineseGrams_from E seq [] = flush seq"
| "chineseGrams_from E seq (r # rs) =
     (if IsHan E r then chineseGrams_from E (seq @ [r]) rs
      else flush seq @ chineseGrams_from E [] rs)"

definition chineseGrams :: "env \<Rightarrow> gostring \<Rightarrow> gostring list" where
  "chineseGrams E s = chineseGrams_from E [] s"

definition stopwordEN :: "gostring list" where
  "stopwordEN = map S [''the'', ''of'', ''and'', ''to'', ''in'', ''is'', ''for'', ''on'', ''with'',
     ''this'', ''that'', ''are'', ''be'', ''as'', ''by'', ''at'', ''from'', ''or'', ''not'', ''you'',
     ''your'']"

text \<open>\<^verbatim>\<open>strings.ToLower\<close> on a token of \<^verbatim>\<open>asciiTokens\<close>, which is ASCII.\<close>

definition asciiLower :: "gostring \<Rightarrow> gostring" where
  "asciiLower s = map (\<lambda>r. if of_char CHR ''A'' \<le> r \<and> r \<le> of_char CHR ''Z'' then r + 32 else r) s"

text \<open>The tokens of a text that are counted: \<^verbatim>\<open>len(tok)\<close> is a number of bytes, which
  for an ASCII token is its number of code points.\<close>

definition countedTokens :: "env \<Rightarrow> gostring \<Rightarrow> gostring list" where
  "countedTokens E text =
     filter (\<lambda>tok. \<not> (tok \<in> set stopwordEN \<or> length tok \<le> 2)) (map asciiLower (asciiTokens text))
     @ filter (\<lambda>tok. tok \<notin> set (stopwordCN E)) (chineseGrams E text)"

subsection \<open>Sentiment signals\<close>

text \<open>The loop over a lexicon: the first token found in the text, or in its lower-case
  form, adds 1 and ends the loop.\<close>

fun lexiconHit :: "gostring list \<Rightarrow> gostring \<Rightarrow> gostring \<Rightarrow> real" where
  "lexiconHit [] text lower = 0"
| "lexiconHit (token # rest) text lower =
     (if token = [] then lexiconHit rest text lower
      else if Contains text token \<or> Contains lower token then 1
      else lexiconHit rest text lower)"

fun emojiSignals :: "env \<Rightarrow> gostring list \<Rightarrow> real \<times> real \<Rightarrow> real \<times> real" where
  "emojiSignals E [] pn = pn"
| "emojiSignals E (e # es) pn =
     (let e' = TrimSpace e in
      if e' = [] then emojiSignals E es pn
      else emojiSignals E es
             (if e' \<in> set (positiveEmojiSet E) then fst pn + 1/2 else fst pn,
              if e' \<in> set (negativeEmojiSet E) then snd pn + 1/2 else snd pn))"

definition sentimentSignals :: "env \<Rightarrow> gostring \<Rightarrow> gostring list \<Rightarrow> real \<times> real" where
  "sentimentSignals E text emojis =
     (if text = [] \<and> emojis = [] then (0, 0)
      else let lower = map (ToLower E) text;
               pos = lexiconHit (positiveLexicons E) text lower;
               neg = lexiconHit (negativeLexicons E) text lower
           in emojiSignals E emojis (pos, neg))"

subsection \<open>The question ledger\<close>

record questionStatus =
  q_Index :: nat
  q_Message :: Message
  q_AskedAt :: gtime
  q_Mentions :: "gostring list"
  q_NormalizedQuestioner :: gostring
  q_Resolved :: bool
  q_ResponseMinutes :: real
  q_ResponseHour :: int
  q_Responders :: "(gostring \<times> gostring) list"

definition shouldTrackQuestion :: "Message \<Rightarrow> gostring \<Rightarrow> bool" where
  "shouldTrackQuestion m text =
     (if \<not> IsQuestion m then False
      else if MsgType m \<noteq> 0 \<and> MsgType m \<noteq> 1 \<and> MsgType m \<noteq> 49 then False
      else if TrimSpace text = [] then False
      else if runeLen text < 2 then False
      else True)"

definition matchesQuestionResponse :: "env \<Rightarrow> Message \<Rightarrow> questionStatus \<Rightarrow> gostring \<Rightarrow> bool" where
  "matchesQuestionResponse E msg q text =
     (let questioner = (if q_NormalizedQuestioner q = []
                        then normalizeName E (senderDisplay (q_Message q))
                        else q_NormalizedQuestioner q)
      in if questioner = [] then False
      else let responderName = normalizeName E (senderDisplay msg)
      in if responderName = [] \<or> responderName = questioner then False
      else if (case Reference msg of
                 None \<Rightarrow> False
               | Some ref \<Rightarrow>
                   normalizeName E (ref_SenderName ref) = questioner \<or>
                   (let refContent = TrimSpace (ref_Content ref);
                        questionContent = TrimSpace (Content (q_Message q))
                    in refContent \<noteq> [] \<and> questionContent \<noteq> [] \<and>
                       (Contains questionContent refContent \<or> Contains refContent questionContent)))
           then True
      else if list_ex (\<lambda>mention. normalizeName E mention = questioner) (Mentions msg) then True
      else if list_ex (\<lambda>target. normalizeName E target = responderName) (q_Mentions q) then True
      else False)"

text \<open>A Go \<^verbatim>\<open>map\<close> is a list of entries with distinct keys, in the order the keys were
  first stored.\<close>

fun mapPut :: "'k \<Rightarrow> 'v \<Rightarrow> ('k \<times> 'v) list \<Rightarrow> ('k \<times> 'v) list" where
  "mapPut k v [] = [(k, v)]"
| "mapPut k v (e # es) = (if fst e = k then (k, v) # es else e # mapPut k v es)"

text \<open>\<^verbatim>\<open>m[k]++\<close>.\<close>

fun bump :: "'k \<Rightarrow> ('k \<times> nat) list \<Rightarrow> ('k \<times> nat) list" where
  "bump k [] = [(k, 1)]"
| "bump k (e # es) = (if fst e = k then (k, Suc (snd e)) # es else e # bump k es)"

text \<open>The body of the loop over \<^verbatim>\<open>questions\<close> in \<^verbatim>\<open>BuildSummary\<close>, for one entry: the
  entry is a pointer in the source and is changed in place, here the changed entry is
  returned.\<close>

definition resolveQuestion ::
  "env \<Rightarrow> nat \<Rightarrow> Message \<Rightarrow> gostring \<Rightarrow> gtime \<Rightarrow> questionStatus \<Rightarrow> questionStatus" where
  "resolveQuestion E idx m text msgTime q =
     (if q_Resolved q then q
      else if idx \<le> q_Index q then q
      else if IsZero msgTime \<or> (\<not> IsZero (q_AskedAt q) \<and> Before msgTime (q_AskedAt q)) then q
      else if matchesQuestionResponse E m q text then
        (let q1 = q\<lparr>q_Resolved := True\<rparr>;
             q2 = (if \<not> IsZero msgTime \<and> \<not> IsZero (q_AskedAt q) \<and> After msgTime (q_AskedAt q)
                   then q1\<lparr>q_ResponseMinutes := Minutes (Sub msgTime (q_AskedAt q))\<rparr> else q1);
             q3 = q2\<lparr>q_ResponseHour := (if IsZero msgTime then - 1 else int (Hour msgTime))\<rparr>;
             display = senderDisplay m
         in if display \<noteq> []
            then q3\<lparr>q_Responders := mapPut (normalizeName E display) display (q_Responders q3)\<rparr>
            else q3)
      else q)"

text \<open>The entry that \<^verbatim>\<open>BuildSummary\<close> appends for a tracked question; the fields it does
  not name have Go's zero values.\<close>

definition newQuestion :: "env \<Rightarrow> nat \<Rightarrow> Message \<Rightarrow> gtime \<Rightarrow> questionStatus" where
  "newQuestion E idx m msgTime =
     \<lparr>q_Index = idx, q_Message = m, q_AskedAt = msgTime,
      q_Mentions = uniqueStrings E (Mentions m),
      q_NormalizedQuestioner = normalizeName E (senderDisplay m),
      q_Resolved = False, q_ResponseMinutes = 0, q_ResponseHour = 0, q_Responders = []\<rparr>"

subsection \<open>The pass over the messages\<close>

record vibeTracker =
  infoDense :: nat
  mentionMsg :: nat
  questionMsg :: nat
  exclaimMsg :: nat
  sentimentPos :: real
  sentimentNeg :: real

text \<open>What the loop of \<^verbatim>\<open>BuildSummary\<close> changes: its local variables and the two fields
  of \<^verbatim>\<open>sum\<close> it counts in.\<close>

record pass =
  senderCount :: "(gostring \<times> nat) list"
  linkCount :: "(gostring \<times> nat) list"
  tokenCount :: "(gostring \<times> nat) list"
  histogram :: "nat list"
  imageCount :: nat
  messagesText :: "gostring list"
  analytics :: vibeTracker
  questions :: "questionStatus list"
  lastTime :: gtime

definition initial :: pass where
  "initial =
     \<lparr>senderCount = [], linkCount = [], tokenCount = [], histogram = replicate 24 0,
      imageCount = 0, messagesText = [],
      analytics = \<lparr>infoDense = 0, mentionMsg = 0, questionMsg = 0, exclaimMsg = 0,
                   sentimentPos = 0, sentimentNeg = 0\<rparr>,
      questions = [], lastTime = zeroTime\<rparr>"

definition messageText :: "Message \<Rightarrow> gostring" where
  "messageText m = (if Content m = [] then Text m else Content m)"

definition foundLinks :: "Message \<Rightarrow> gostring list" where
  "foundLinks m =
     extractURLs (messageText m) @
     (case Share m of None \<Rightarrow> [] | Some sh \<Rightarrow> (if share_URL sh \<noteq> [] then [share_URL sh] else []))"

definition trackVibes :: "env \<Rightarrow> Message \<Rightarrow> vibeTracker \<Rightarrow> vibeTracker" where
  "trackVibes E m a =
     (let text = messageText m;
          pn = sentimentSignals E text (Emojis m)
      in \<lparr>infoDense = (if foundLinks m \<noteq> [] \<or> runeLen text > 80 \<or> MsgType m = 49
                       then infoDense a + 1 else infoDense a),
          mentionMsg = (if Mentions m \<noteq> [] then mentionMsg a + 1 else mentionMsg a),
          questionMsg = (if IsQuestion m then questionMsg a + 1 else questionMsg a),
          exclaimMsg = (if ContainsAny text (exclaimChars E) then exclaimMsg a + 1 else exclaimMsg a),
          sentimentPos = sentimentPos a + fst pn,
          sentimentNeg = sentimentNeg a + snd pn\<rparr>)"

text \<open>One iteration of the loop, for the message \<open>m\<close> at index \<open>idx\<close>.\<close>

definition step :: "env \<Rightarrow> nat \<Rightarrow> Message \<Rightarrow> pass \<Rightarrow> pass" where
  "step E idx m st =
     (let s = senderDisplay m;
          text = messageText m;
          msgTime = messageTime E m;
          resolved = map (resolveQuestion E idx m text msgTime) (questions st)
      in \<lparr>senderCount = (if s \<noteq> [] then bump s (senderCount st) else senderCount st),
          linkCount = foldl (\<lambda>c u. bump u c) (linkCount st) (foundLinks m),
          tokenCount = foldl (\<lambda>c tok. bump tok c) (tokenCount st) (countedTokens E text),
          histogram = (case histogramHour E m of
                         None \<Rightarrow> histogram st
                       | Some h \<Rightarrow> (histogram st)[h := histogram st ! h + 1]),
          imageCount = (if MsgType m = 3 then imageCount st + 1 else imageCount st),
          messagesText = (if text \<noteq> [] then messagesText st @ [text] else messagesText st),
          analytics = trackVibes E m (analytics st),
          questions = (if shouldTrackQuestion m text
                       then resolved @ [newQuestion E idx m msgTime] else resolved),
          lastTime = (if \<not> IsZero msgTime \<and> After msgTime (lastTime st)
                      then msgTime else lastTime st)\<rparr>)"

fun run :: "env \<Rightarrow> nat \<Rightarrow> Message list \<Rightarrow> pass \<Rightarrow> pass" where
  "run E idx [] st = st"
| "run E idx (m # ms) st = run E (Suc idx) ms (step E idx m st)"

subsection \<open>Ranking\<close>

record KV =
  kv_Key :: gostring
  kv_Count :: nat

text \<open>
  \<^verbatim>\<open>sort.Slice\<close> is modelled by the insertion sort that Go runs on slices of fewer than
  12 elements: each element moves left while it is less (\<open>lt\<close>) than its left neighbour
  (\<open>insertLeft\<close> works on the reversed sorted prefix). Where \<open>lt\<close> is a total order on
  the elements, every sorting algorithm returns this list. Where it is not, Go's
  algorithm for longer slices may order equal elements differently, and what it returns
  is still the result of this sort on some order of the input.
\<close>

fun insertLeft :: "('a \<Rightarrow> 'a \<Rightarrow> bool) \<Rightarrow> 'a \<Rightarrow> 'a list \<Rightarrow> 'a list" where
  "insertLeft lt x [] = [x]"
| "insertLeft lt x (y # ys) = (if lt x y then y # insertLeft lt x ys else x # y # ys)"

definition sort_Slice :: "('a \<Rightarrow> 'a \<Rightarrow> bool) \<Rightarrow> 'a list \<Rightarrow> 'a list" where
  "sort_Slice lt xs = rev (foldl (\<lambda>acc x. insertLeft lt x acc) [] xs)"

definition mapEntries :: "env \<Rightarrow> (gostring \<times> nat) list \<Rightarrow> KV list" where
  "mapEntries E m = map (\<lambda>e. \<lparr>kv_Key = fst e, kv_Count = snd e\<rparr>) (mapRange E m)"

definition topK :: "env \<Rightarrow> (gostring \<times> nat) list \<Rightarrow> nat \<Rightarrow> KV list" where
  "topK E m k =
     take k (sort_Slice (\<lambda>a b. if kv_Count a = kv_Count b then kv_Key a < kv_Key b
                               else kv_Count a > kv_Count b) (mapEntries E m))"

definition topKKeys :: "env \<Rightarrow> (gostring \<times> nat) list \<Rightarrow> nat \<Rightarrow> gostring list" where
  "topKKeys E m k =
     map kv_Key (take k (sort_Slice (\<lambda>a b. kv_Count a > kv_Count b) (mapEntries E m)))"

text \<open>The peak hour: the first bucket with the largest count, 0 for an empty histogram.\<close>

definition peakOf :: "nat list \<Rightarrow> nat" where
  "peakOf h =
     fst (foldl (\<lambda>(peakHour, peakValue) i.
                   if h ! i > peakValue then (i, h ! i) else (peakHour, peakValue))
            (0, 0) [0 ..< length h])"

subsection \<open>Topics\<close>

record Topic =
  topic_Name :: gostring
  topic_Keywords :: "gostring list"
  topic_Count :: nat
  topic_Representative :: gostring

text \<open>The representative of a topic: the first longest text among the matching ones.\<close>

fun longest :: "gostring list \<Rightarrow> nat \<Rightarrow> gostring \<Rightarrow> gostring" where
  "longest [] long rep = rep"
| "longest (t # ts) long rep =
     (if runeLen t > long then longest ts (runeLen t) t else longest ts long rep)"

text \<open>The loop over \<^verbatim>\<open>topTokens\<close>; \<open>used\<close> holds the keys of the map \<^verbatim>\<open>used\<close>, and
  \<open>matched\<close> the texts at the indices \<^verbatim>\<open>idxs\<close>.\<close>

fun buildTopics ::
  "gostring list \<Rightarrow> gostring list \<Rightarrow> gostring list \<Rightarrow> Topic list \<Rightarrow> Topic list" where
  "buildTopics [] texts used topics = topics"
| "buildTopics (tk # rest) texts used topics =
     (if length topics \<ge> 5 then topics
      else let matched = filter (\<lambda>t. Contains t tk) texts in
        if length matched < 3 then buildTopics rest texts used topics
        else if list_ex (\<lambda>k. Contains k tk \<or> Contains tk k) used
          then buildTopics rest texts used topics
        else buildTopics rest texts (tk # used)
               (topics @ [\<lparr>topic_Name = tk, topic_Keywords = [tk],
                           topic_Count = length matched,
                           topic_Representative = longest matched 0 []\<rparr>]))"

subsection \<open>Group vibes\<close>

record GroupVibes =
  Score :: int
  Activity :: real
  Sentiment :: real
  InfoDensity :: real
  Controversy :: real
  Tone :: gostring
  Reasons :: "gostring list"

definition clamp01 :: "real \<Rightarrow> real" where
  "clamp01 v = (if v < 0 then 0 else if v > 1 then 1 else v)"

text \<open>\<^verbatim>\<open>math.Round\<close>: to the nearest integer, halves away from zero.\<close>

definition Round :: "real \<Rightarrow> int" where
  "Round x = (if x \<ge> 0 then \<lfloor>x + 1/2\<rfloor> else - \<lfloor>- x + 1/2\<rfloor>)"

text \<open>
  The arithmetic of \<^verbatim>\<open>float64\<close>. \<open>float64 x\<close> is the \<^verbatim>\<open>float64\<close> nearest to the real
  \<open>x\<close>: the multiple of \<open>2 ^ (e - 52)\<close> nearest to \<open>x\<close>, where \<open>2 ^ e \<le> |x| < 2 ^ (e + 1)\<close>
  (a significand of 53 bits), the even multiple at a tie. It is what a Go constant such as
  \<^verbatim>\<open>0.35\<close> denotes, what the conversion \<^verbatim>\<open>float64(n)\<close> of an integer returns, and what
  \<^verbatim>\<open>+\<close>, \<^verbatim>\<open>-\<close>, \<^verbatim>\<open>*\<close> and \<^verbatim>\<open>/\<close> return for the exact result \<open>x\<close>: each operation is
  rounded on its own, as Go compiles them for amd64 (no fused multiply-add). The exponent
  range is not limited: with counters below \<open>2 ^ 63\<close> no operation of
  \<^verbatim>\<open>buildGroupVibes\<close> overflows or reaches the subnormal numbers.
\<close>

definition roundEven :: "real \<Rightarrow> int" where
  "roundEven y =
     (let f = \<lfloor>y\<rfloor>; d = y - of_int f
      in if d < 1/2 then f else if d > 1/2 then f + 1 else if even f then f else f + 1)"

definition float64 :: "real \<Rightarrow> real" where
  "float64 x =
     (if x = 0 then 0
      else let u = 2 powr (of_int \<lfloor>log 2 \<bar>x\<bar>\<rfloor> - 52)
           in of_int (roundEven (x / u)) * u)"


definition fadd :: "real \<Rightarrow> real \<Rightarrow> real" where
  "fadd x y = float64 (x + y)"

definition fsub :: "real \<Rightarrow> real \<Rightarrow> real" where
  "fsub x y = float64 (x - y)"

definition fmul :: "real \<Rightarrow> real \<Rightarrow> real" where
  "fmul x y = float64 (x * y)"

definition fdiv :: "real \<Rightarrow> real \<Rightarrow> real" where
  "fdiv x y = float64 (x / y)"

text \<open>\<^verbatim>\<open>roundTo\<close>: \<^verbatim>\<open>math.Pow(10, digits)\<close> is exactly \<open>10 ^ digits\<close> for the 1 and 2
  digits the code asks for, and \<^verbatim>\<open>math.Round\<close> returns an integer, which is exact.\<close>

definition roundTo :: "real \<Rightarrow> nat \<Rightarrow> real" where
  "roundTo v digits = fdiv (real_of_int (Round (fmul v (10 ^ digits)))) (10 ^ digits)"

definition sprintf :: "env \<Rightarrow> gostring \<Rightarrow> fmt_arg list \<Rightarrow> gostring" where
  "sprintf E format a = TrimSpace (fmtSprintf E format a)"

text \<open>The local variables \<^verbatim>\<open>activity\<close>, \<^verbatim>\<open>sentiment\<close>, \<^verbatim>\<open>infoDensity\<close>,
  \<^verbatim>\<open>controversy\<close>, \<^verbatim>\<open>balanced\<close> and \<^verbatim>\<open>score\<close> of \<^verbatim>\<open>buildGroupVibes\<close>, for
  \<open>tot\<close> messages of \<open>senders\<close> senders (the two fields of \<^verbatim>\<open>sum\<close> that the function reads).
  The sums are evaluated from left to right.\<close>

definition vibeActivity :: "nat \<Rightarrow> nat \<Rightarrow> real" where
  "vibeActivity tot senders =
     clamp01 (fadd (fdiv (float64 (real tot)) 80) (fdiv (float64 (real senders)) 25))"

definition vibeSentiment :: "nat \<Rightarrow> vibeTracker \<Rightarrow> real" where
  "vibeSentiment tot a =
     clamp01 (fadd (1/2) (fdiv (fsub (sentimentPos a) (sentimentNeg a))
                               (fmul (float64 (real tot)) (3/2))))"

definition vibeInfoDensity :: "nat \<Rightarrow> vibeTracker \<Rightarrow> real" where
  "vibeInfoDensity tot a = clamp01 (fdiv (float64 (real (infoDense a))) (float64 (real tot)))"

definition vibeControversy :: "nat \<Rightarrow> vibeTracker \<Rightarrow> real" where
  "vibeControversy tot a =
     clamp01 (fdiv (float64 (real (questionMsg a + mentionMsg a + exclaimMsg a)))
                   (fmul (float64 (real tot)) 1))"

definition vibeBalanced :: "real \<Rightarrow> real" where
  "vibeBalanced controversy =
     clamp01 (fsub 1 (fdiv \<bar>fsub (float64 (35/100)) controversy\<bar> (float64 (35/100))))"

definition vibeScore :: "real \<Rightarrow> real \<Rightarrow> real \<Rightarrow> real \<Rightarrow> int" where
  "vibeScore activity sentiment infoDensity balanced =
     Round (fmul (fadd (fadd (fadd (fmul activity (float64 (35/100)))
                                   (fmul sentiment (float64 (3/10))))
                             (fmul infoDensity (float64 (2/10))))
                       (fmul balanced (float64 (15/100))))
                 100)"

definition zeroVibes :: GroupVibes where
  "zeroVibes = \<lparr>Score = 0, Activity = 0, Sentiment = 0, InfoDensity = 0, Controversy = 0,
                Tone = [], Reasons = []\<rparr>"

definition buildGroupVibes :: "env \<Rightarrow> nat \<Rightarrow> nat \<Rightarrow> vibeTracker \<Rightarrow> GroupVibes" where
  "buildGroupVibes E tot senders a =
     (if tot = 0 then zeroVibes
      else let activity = vibeActivity tot senders;
               sentiment = vibeSentiment tot a;
               infoDensity = vibeInfoDensity tot a;
               controversy = vibeControversy tot a;
               balanced = vibeBalanced controversy;
               score = vibeScore activity sentiment infoDensity balanced;
               tone = (if score \<ge> 85 then literal E ToneHigh
                       else if score \<ge> 70 then literal E ToneActive
                       else if score \<le> 40 then literal E ToneCold
                       else literal E ToneSteady);
               reasons =
                 (if activity \<ge> float64 (7/10)
                    then [sprintf E (literal E FmtActivityHigh) [ArgInt (int tot), ArgInt (int senders)]]
                  else if activity \<le> float64 (3/10) then [literal E TxtActivityLow] else []) @
                 (if sentiment \<ge> float64 (6/10) then [literal E TxtSentimentPos]
                  else if sentiment \<le> float64 (4/10) then [literal E TxtSentimentNeg] else []) @
                 (if infoDensity \<ge> 1/2 then [literal E TxtInfoDense] else []) @
                 (if controversy \<ge> float64 (55/100) then [literal E TxtControversyHigh]
                  else if controversy \<le> float64 (2/10) then [literal E TxtControversyLow] else [])
           in \<lparr>Score = score, Activity = roundTo activity 2, Sentiment = roundTo sentiment 2,
               InfoDensity = roundTo infoDensity 2, Controversy = roundTo controversy 2,
               Tone = tone, Reasons = reasons\<rparr>)"

subsection \<open>Reply debt\<close>

record ReplyItem =
  Questioner :: gostring
  Question :: gostring
  AskedAt :: gostring
  item_Mentions :: "gostring list"
  AgeMinutes :: real
  ResponseMinutes :: real
  Responders :: "gostring list"

record ReplyDebt =
  Outstanding :: "ReplyItem list"
  Resolved :: "ReplyItem list"
  AvgResponseMinutes :: real
  BestResponseHours :: "int list"

definition trimQuestionText :: "env \<Rightarrow> Message \<Rightarrow> gostring" where
  "trimQuestionText E m =
     (let text = TrimSpace (messageText m);
          text = (if text = []
                  then (case Reference m of Some ref \<Rightarrow> TrimSpace (ref_Content ref) | None \<Rightarrow> text)
                  else text)
      in if text = [] then []
         else if length text > 120 then take 120 text @ literal E Ellipsis
         else text)"

text \<open>\<^verbatim>\<open>bestHours\<close>: its comparator is a total order on entries with distinct hours, so
  the order in which the map is ranged over does not show in the result.\<close>

definition bestHours :: "(int \<times> nat) list \<Rightarrow> nat \<Rightarrow> int list" where
  "bestHours counts limit =
     (if counts = [] \<or> limit = 0 then []
      else let arr = filter (\<lambda>e. \<not> fst e < 0) counts;
               arr = sort_Slice (\<lambda>a b. if snd a = snd b then fst a < fst b else snd a > snd b) arr
           in map fst (if length arr > limit then take limit arr else arr))"

text \<open>The item of a ledger entry, as the loop of \<^verbatim>\<open>buildReplyDebt\<close> builds it in its two
  branches. The responders are the values of a map, sorted: they do not depend on the
  order of the \<^verbatim>\<open>range\<close>.\<close>

definition baseItem :: "env \<Rightarrow> questionStatus \<Rightarrow> ReplyItem" where
  "baseItem E q =
     \<lparr>Questioner = senderDisplay (q_Message q),
      Question = trimQuestionText E (q_Message q),
      AskedAt = (if \<not> IsZero (q_AskedAt q) then formatRFC3339 E (q_AskedAt q) else []),
      item_Mentions = q_Mentions q,
      AgeMinutes = 0, ResponseMinutes = 0, Responders = []\<rparr>"

definition resolvedItem :: "env \<Rightarrow> questionStatus \<Rightarrow> ReplyItem" where
  "resolvedItem E q =
     (baseItem E q)\<lparr>ResponseMinutes := roundTo (q_ResponseMinutes q) 1,
                    Responders := sort (map snd (q_Responders q))\<rparr>"

definition outstandingItem :: "env \<Rightarrow> gtime \<Rightarrow> questionStatus \<Rightarrow> ReplyItem" where
  "outstandingItem E lastT q =
     (if \<not> IsZero lastT \<and> \<not> IsZero (q_AskedAt q)
      then (let age = Minutes (Sub lastT (q_AskedAt q));
                age = (if age < 0 then 0 else age)
            in (baseItem E q)\<lparr>AgeMinutes := roundTo age 1\<rparr>)
      else baseItem E q)"

record debt =
  rd :: ReplyDebt
  hourCounts :: "(int \<times> nat) list"
  totalResponse :: real
  responseCount :: real

definition zeroDebt :: ReplyDebt where
  "zeroDebt = \<lparr>Outstanding = [], Resolved = [], AvgResponseMinutes = 0, BestResponseHours = []\<rparr>"

definition debtStep :: "env \<Rightarrow> gtime \<Rightarrow> debt \<Rightarrow> questionStatus \<Rightarrow> debt" where
  "debtStep E lastT d q =
     (if q_Resolved q then
        d\<lparr>rd := (rd d)\<lparr>Resolved := Resolved (rd d) @ [resolvedItem E q]\<rparr>,
          totalResponse := (if q_ResponseMinutes q > 0
                            then totalResponse d + q_ResponseMinutes q else totalResponse d),
          responseCount := (if q_ResponseMinutes q > 0
                            then responseCount d + 1 else responseCount d),
          hourCounts := (if q_ResponseHour q \<ge> 0
                         then bump (q_ResponseHour q) (hourCounts d) else hourCounts d)\<rparr>
      else
        d\<lparr>rd := (rd d)\<lparr>Outstanding := Outstanding (rd d) @ [outstandingItem E lastT q]\<rparr>\<rparr>)"

definition buildReplyDebt :: "env \<Rightarrow> questionStatus list \<Rightarrow> gtime \<Rightarrow> ReplyDebt" where
  "buildReplyDebt E qs lastT =
     (if qs = [] then zeroDebt
      else let d = foldl (debtStep E lastT)
                     \<lparr>rd = zeroDebt, hourCounts = [], totalResponse = 0, responseCount = 0\<rparr> qs
           in (rd d)\<lparr>AvgResponseMinutes :=
                       (if responseCount d > 0
                        then roundTo (totalResponse d / responseCount d) 1 else 0),
                     BestResponseHours := bestHours (hourCounts d) 3\<rparr>)"

subsection \<open>The summary\<close>

record Summary =
  TotalMessages :: nat
  UniqueSenders :: nat
  TopSenders :: "KV list"
  TopLinks :: "gostring list"
  HourlyHistogram :: "nat list"
  Keywords :: "KV list"
  PeakHour :: nat
  Highlights :: "gostring list"
  Topics :: "Topic list"
  ImageCount :: nat
  GroupVibes :: GroupVibes
  ReplyDebt :: ReplyDebt

text \<open>\<^verbatim>\<open>strings.Join\<close>.\<close>

fun Join :: "gostring list \<Rightarrow> gostring \<Rightarrow> gostring" where
  "Join [] sep = []"
| "Join [x] sep = x"
| "Join (x # y # ys) sep = x @ sep @ Join (y # ys) sep"

definition buildHighlights :: "env \<Rightarrow> Summary \<Rightarrow> gostring list" where
  "buildHighlights E s =
     [sprintf E (literal E FmtHeadline)
        [ArgInt (int (TotalMessages s)), ArgInt (int (UniqueSenders s)),
         ArgInt (int (PeakHour s)), ArgInt (int (PeakHour s))]] @
     (if TopSenders s \<noteq> []
      then [literal E LblTopSenders @
            Join (map (\<lambda>kv. sprintf E (S ''%s(%d)'') [ArgStr (kv_Key kv), ArgInt (int (kv_Count kv))])
                    (take 3 (TopSenders s)))
              (literal E Separator)]
      else []) @
     (if Topics s \<noteq> []
      then [literal E LblTopics @ Join (map topic_Name (take 3 (Topics s))) (literal E Separator)]
      else []) @
     (case TopLinks s of
        [] \<Rightarrow> []
      | u # _ \<Rightarrow>
          (case urlHost E u of
             Some host \<Rightarrow>
               (if host \<noteq> []
                then [sprintf E (literal E FmtLinksHost) [ArgInt (int (length (TopLinks s))), ArgStr host]]
                else [sprintf E (literal E FmtLinks) [ArgInt (int (length (TopLinks s)))]])
           | None \<Rightarrow> [sprintf E (literal E FmtLinks) [ArgInt (int (length (TopLinks s)))]])) @
     (if ImageCount s > 0 then [sprintf E (literal E FmtImages) [ArgInt (int (ImageCount s))]] else [])"

definition BuildSummary :: "env \<Rightarrow> Message list \<Rightarrow> Summary" where
  "BuildSummary E msgs =
     (let st = run E 0 msgs initial;
          keywords = topK E (tokenCount st) 20;
          s0 = \<lparr>TotalMessages = length msgs,
                 UniqueSenders = length (senderCount st),
                 TopSenders = topK E (senderCount st) 5,
                 TopLinks = topKKeys E (linkCount st) 5,
                 HourlyHistogram = histogram st,
                 Keywords = keywords,
                 PeakHour = peakOf (histogram st),
                 Highlights = [],
                 Topics = buildTopics (map kv_Key keywords) (messagesText st) [] [],
                 ImageCount = imageCount st,
                 GroupVibes = zeroVibes,
                 ReplyDebt = zeroDebt\<rparr>;
          s1 = s0\<lparr>Highlights := buildHighlights E s0\<rparr>;
          s2 = s1\<lparr>GroupVibes := buildGroupVibes E (TotalMessages s1) (UniqueSenders s1) (analytics st)\<rparr>
      in s2\<lparr>ReplyDebt := buildReplyDebt E (questions st) (lastTime st)\<rparr>)"

subsection \<open>An environment and messages for the examples\<close>

text \<open>
  \<open>demoEnv\<close> is one possible environment: the zone is UTC, the Unicode tables are cut
  down to ASCII and the Han block U+4E00 to U+9FFF, \<^verbatim>\<open>time.Parse\<close> to one timestamp
  (2024-01-01T10:00:00Z is Unix second 1704103200), \<^verbatim>\<open>fmt.Sprintf\<close> returns the format,
  maps are ranged over in insertion order, and the tables hold their ASCII entries.
  The examples use texts on which these agree with Go.
\<close>

definition demoEnv :: env where
  "demoEnv =
     \<lparr>ToLower = (\<lambda>r. if 0x41 \<le> r \<and> r \<le> 0x5A then r + 32 else r),
      IsLetter = (\<lambda>r. (0x41 \<le> r \<and> r \<le> 0x5A) \<or> (0x61 \<le> r \<and> r \<le> 0x7A) \<or> (0x4E00 \<le> r \<and> r \<le> 0x9FFF)),
      IsDigit = (\<lambda>r. 0x30 \<le> r \<and> r \<le> 0x39),
      IsHan = (\<lambda>r. 0x4E00 \<le> r \<and> r \<le> 0x9FFF),
      localOffset = (\<lambda>s. 0),
      parseRFC3339 = (\<lambda>s. if s = S ''2024-01-01T10:00:00Z''
                          then Some \<lparr>unixNano = 1704103200 * 1000000000, zoneOffset = 0\<rparr> else None),
      formatRFC3339 = (\<lambda>t. []),
      urlHost = (\<lambda>u. None),
      fmtSprintf = (\<lambda>format a. format),
      mapRange = (\<lambda>m. m),
      positiveLexicons = [S ''nice'', S ''great'', S ''perfect''],
      negativeLexicons = [S ''bug'', S ''??''],
      positiveEmojiSet = [S ''OK''],
      negativeEmojiSet = [],
      stopwordCN = [],
      nameReplacerOld = [[0xA0], [0x2002], [0x2003], [0x2005], [0x2009], [0x200A], [0x200B]],
      exclaimChars = S ''!'',
      literal = (\<lambda>i. S ''-'')\<rparr>"

text \<open>Go's zero \<^verbatim>\<open>chatlog.Message{}\<close>.\<close>

definition blankMessage :: Message where
  "blankMessage =
     \<lparr>Sender = [], SenderName = [], From = [], Nickname = [], Timestamp = 0, CreateTime = 0,
      Time = [], Content = [], Text = [], MsgType = 0, Mentions = [], Emojis = [],
      Reference = None, IsQuestion = False, Share = None\<rparr>"

subsection \<open>Reading a counter\<close>


subsection \<open>Example messages\<close>


text \<open>A message with no numeric timestamp, only the RFC 3339 string.\<close>

definition timeOnlyMsg :: Message where
  "timeOnlyMsg = blankMessage\<lparr>SenderName := S ''Alice'', Content := S ''hello'',
                               Time := S ''2024-01-01T10:00:00Z''\<rparr>"

text \<open>A message with a numeric timestamp in seconds, 2024-01-01T10:00:00Z.\<close>

definition stampedMsg :: Message where
  "stampedMsg = blankMessage\<lparr>SenderName := S ''Bob'', Content := S ''Nice, great!'',
                              Timestamp := 1704103200, Emojis := [S ''OK'', S '' OK '', S ''x'']\<rparr>"

text \<open>A short message, to be sent three times.\<close>

definition abcMsg :: Message where
  "abcMsg = blankMessage\<lparr>SenderName := S ''Carol'', Content := S ''abc''\<rparr>"

subsection \<open>Predicates for the loop over the topic candidates\<close>

text \<open>The topic that the loop appends for the token \<open>tk\<close>, the test it makes before
  (enough matching texts, no overlap with a name already used), and what holds of the
  accepted topics: each is \<open>strong\<close>, and their names are \<open>apart\<close>.\<close>

definition newTopic :: "gostring \<Rightarrow> gostring list \<Rightarrow> Topic" where
  "newTopic tk texts =
     \<lparr>topic_Name = tk, topic_Keywords = [tk],
      topic_Count = length (filter (\<lambda>t. Contains t tk) texts),
      topic_Representative = longest (filter (\<lambda>t. Contains t tk) texts) 0 []\<rparr>"

definition accepts :: "gostring \<Rightarrow> gostring list \<Rightarrow> gostring list \<Rightarrow> bool" where
  "accepts tk texts used \<longleftrightarrow>
     3 \<le> length (filter (\<lambda>t. Contains t tk) texts) \<and>
     (\<forall>k \<in> set used. \<not> Contains k tk \<and> \<not> Contains tk k)"

definition strong :: "gostring list \<Rightarrow> Topic \<Rightarrow> bool" where
  "strong texts t \<longleftrightarrow>
     3 \<le> topic_Count t \<and>
     topic_Count t = length (filter (\<lambda>x. Contains x (topic_Name t)) texts)"

definition apart :: "gostring list \<Rightarrow> bool" where
  "apart names \<longleftrightarrow>
     distinct names \<and> (\<forall>a \<in> set names. \<forall>b \<in> set names. a \<noteq> b \<longrightarrow> \<not> Contains a b)"

subsection \<open>The ledger: invariant, the claimed rule, example messages\<close>

text \<open>What holds of every entry of the ledger during the pass: its normalized questioner
  is the normalized display name of its message, it is resolved only if that name is not
  empty, and while it is open its response fields have their zero values.\<close>

definition wellFormed :: "env \<Rightarrow> questionStatus \<Rightarrow> bool" where
  "wellFormed E q \<longleftrightarrow>
     q_NormalizedQuestioner q = normalizeName E (senderDisplay (q_Message q)) \<and>
     (q_Resolved q \<longrightarrow> q_NormalizedQuestioner q \<noteq> []) \<and>
     (\<not> q_Resolved q \<longrightarrow> q_ResponseMinutes q = 0 \<and> q_ResponseHour q = 0 \<and> q_Responders q = [])"

text \<open>The rule of C1 in the words of the specification, for a message \<open>m\<close> and an open
  entry \<open>q\<close>: the time of the message is not earlier than the asked-at time, the two
  normalized identities are not empty and differ, and one of (a) to (d) holds.\<close>

definition claimedResolves :: "env \<Rightarrow> Message \<Rightarrow> questionStatus \<Rightarrow> bool" where
  "claimedResolves E m q \<longleftrightarrow>
     \<not> Before (messageTime E m) (q_AskedAt q) \<and>
     normalizeName E (senderDisplay m) \<noteq> [] \<and> q_NormalizedQuestioner q \<noteq> [] \<and>
     normalizeName E (senderDisplay m) \<noteq> q_NormalizedQuestioner q \<and>
     ((case Reference m of
         None \<Rightarrow> False
       | Some ref \<Rightarrow>
           normalizeName E (ref_SenderName ref) = q_NormalizedQuestioner q \<or>
           (ref_Content ref \<noteq> [] \<and> Content (q_Message q) \<noteq> [] \<and>
            (Contains (Content (q_Message q)) (ref_Content ref) \<or>
             Contains (ref_Content ref) (Content (q_Message q))))) \<or>
      list_ex (\<lambda>mention. normalizeName E mention = q_NormalizedQuestioner q) (Mentions m) \<or>
      list_ex (\<lambda>target. normalizeName E target = normalizeName E (senderDisplay m)) (q_Mentions q))"

text \<open>A question without any time, and a reply to it without any time that quotes the
  questioner; the same two with timestamps five minutes apart; and a question whose
  sender fields are all blank.\<close>

definition askMsg :: Message where
  "askMsg = blankMessage\<lparr>SenderName := S ''Alice'', Content := S ''why?'', IsQuestion := True\<rparr>"

definition replyMsg :: Message where
  "replyMsg = blankMessage\<lparr>SenderName := S ''Bob'', Content := S ''fixed'',
                Reference := Some \<lparr>ref_SenderName = S ''Alice'', ref_Content = S ''why?''\<rparr>\<rparr>"

definition askMsgT :: Message where
  "askMsgT = askMsg\<lparr>Timestamp := 1704103200\<rparr>"

definition replyMsgT :: Message where
  "replyMsgT = replyMsg\<lparr>Timestamp := 1704103500\<rparr>"

definition anonMsg :: Message where
  "anonMsg = blankMessage\<lparr>Content := S ''why?'', IsQuestion := True, Timestamp := 1704103200\<rparr>"

text \<open>A message with two different links, each once.\<close>

definition twoLinksMsg :: Message where
  "twoLinksMsg = blankMessage\<lparr>SenderName := S ''Alice'', Content := S ''http://b.org http://a.org''\<rparr>"



section \<open>Counters and links\<close>

lemma valid_range_demoEnv: "valid_range (mapRange demoEnv)"
  by (simp add: valid_range_def demoEnv_def)










lemma linkCount_step:
  "linkCount (step E idx m st) = foldl (\<lambda>c u. bump u c) (linkCount st) (foundLinks m)"
  by (simp add: step_def Let_def)







lemma TopLinks_BuildSummary:
  "TopLinks (BuildSummary E msgs) = topKKeys E (linkCount (run E 0 msgs initial)) 5"
  by (simp add: BuildSummary_def Let_def)







section \<open>The hourly histogram\<close>

lemma Hour_less_24: "Hour t < 24"
proof -
  have "0 \<le> (unixNano t div 1000000000 + zoneOffset t) mod 86400"
    and "(unixNano t div 1000000000 + zoneOffset t) mod 86400 < 86400"
    by simp_all
  then have "((unixNano t div 1000000000 + zoneOffset t) mod 86400) div 3600 < 24"
    by linarith
  then show ?thesis by (simp add: Hour_def)
qed

lemma histogramHour_less_24: "histogramHour E m = Some h \<Longrightarrow> h < 24"
  by (auto simp: histogramHour_def Let_def Hour_less_24 split: if_splits)

lemma histogramHour_Some_iff:
  "histogramHour E m \<noteq> None \<longleftrightarrow> 0 < (if Timestamp m = 0 then CreateTime m else Timestamp m)"
  by (simp add: histogramHour_def Let_def)

lemma histogram_step:
  "histogram (step E idx m st) =
     (case histogramHour E m of None \<Rightarrow> histogram st
      | Some h \<Rightarrow> (histogram st)[h := histogram st ! h + 1])"
  by (simp add: step_def Let_def)

lemma sum_list_incr: "h < length xs \<Longrightarrow> sum_list (xs[h := xs ! h + 1]) = sum_list xs + (1::nat)"
proof (induction xs arbitrary: h)
  case Nil
  then show ?case by simp
next
  case (Cons x xs)
  then show ?case by (cases h) auto
qed

lemma histogram_run:
  "length (histogram st) = 24 \<Longrightarrow>
     length (histogram (run E idx msgs st)) = 24 \<and>
     sum_list (histogram (run E idx msgs st)) =
       sum_list (histogram st) + length (filter (\<lambda>m. histogramHour E m \<noteq> None) msgs)"
proof (induction msgs arbitrary: idx st)
  case Nil
  then show ?case by simp
next
  case (Cons m ms)
  show ?case
  proof (cases "histogramHour E m")
    case None
    then have "histogram (step E idx m st) = histogram st" by (simp add: histogram_step)
    with Cons.IH [of "step E idx m st" "Suc idx"] Cons.prems None show ?thesis by simp
  next
    case (Some h)
    then have h: "h < length (histogram st)" using Cons.prems histogramHour_less_24 by simp
    have eq: "histogram (step E idx m st) = (histogram st)[h := histogram st ! h + 1]"
      using Some by (simp add: histogram_step)
    have "length (histogram (step E idx m st)) = 24" using eq Cons.prems by simp
    from Cons.IH [OF this, of "Suc idx"] eq sum_list_incr [OF h] Some show ?thesis by simp
  qed
qed

lemma HourlyHistogram_BuildSummary:
  "HourlyHistogram (BuildSummary E msgs) = histogram (run E 0 msgs initial)"
  by (simp add: BuildSummary_def Let_def)

lemma TotalMessages_BuildSummary: "TotalMessages (BuildSummary E msgs) = length msgs"
  by (simp add: BuildSummary_def Let_def)

lemma histogram_initial: "length (histogram initial) = 24" "sum_list (histogram initial) = 0"
  by (simp_all add: initial_def)

text \<open>
  C3, as the code has it. The 24 buckets of the histogram add up to the number of messages
  whose numeric timestamp (\<^verbatim>\<open>Timestamp\<close>, or \<^verbatim>\<open>CreateTime\<close> when \<^verbatim>\<open>Timestamp\<close> is 0) is
  positive; this is at most the number of messages.
\<close>

theorem histogram_sum_counts_numeric_timestamps:
  "sum_list (HourlyHistogram (BuildSummary E msgs)) =
     length (filter (\<lambda>m. 0 < (if Timestamp m = 0 then CreateTime m else Timestamp m)) msgs)
   \<and> sum_list (HourlyHistogram (BuildSummary E msgs)) \<le> TotalMessages (BuildSummary E msgs)
   \<and> length (HourlyHistogram (BuildSummary E msgs)) = 24"
proof -
  have "sum_list (histogram (run E 0 msgs initial)) =
          length (filter (\<lambda>m. histogramHour E m \<noteq> None) msgs)"
    and "length (histogram (run E 0 msgs initial)) = 24"
    using histogram_run [OF histogram_initial(1), of E 0 msgs] by (simp_all add: histogram_initial)
  moreover have "filter (\<lambda>m. histogramHour E m \<noteq> None) msgs =
      filter (\<lambda>m. 0 < (if Timestamp m = 0 then CreateTime m else Timestamp m)) msgs"
    by (simp only: histogramHour_Some_iff)
  ultimately have s: "sum_list (HourlyHistogram (BuildSummary E msgs)) =
     length (filter (\<lambda>m. 0 < (if Timestamp m = 0 then CreateTime m else Timestamp m)) msgs)"
    by (simp only: HourlyHistogram_BuildSummary)
  have "length (filter (\<lambda>m. 0 < (if Timestamp m = 0 then CreateTime m else Timestamp m)) msgs) \<le> length msgs"
    by (rule length_filter_le)
  moreover have "length (histogram (run E 0 msgs initial)) = 24"
    using histogram_run [OF histogram_initial(1), of E 0 msgs] by simp
  ultimately show ?thesis using s
    by (simp add: TotalMessages_BuildSummary HourlyHistogram_BuildSummary)
qed

text \<open>Of a message with only the RFC 3339 string and one with a numeric timestamp, the
  histogram counts the second.\<close>

theorem histogram_sum_counts_numeric_timestamps_witness:
  "sum_list (HourlyHistogram (BuildSummary demoEnv [timeOnlyMsg, stampedMsg])) = 1 \<and>
   TotalMessages (BuildSummary demoEnv [timeOnlyMsg, stampedMsg]) = 2"
  using histogram_sum_counts_numeric_timestamps [of demoEnv "[timeOnlyMsg, stampedMsg]"]
  by (simp add: TotalMessages_BuildSummary timeOnlyMsg_def stampedMsg_def blankMessage_def)

text \<open>C3 as stated fails where "derivable" is what \<^verbatim>\<open>messageTime\<close> derives: a message that
  carries its time only as an RFC 3339 string has a time, and no bucket counts it.\<close>

theorem histogram_misses_derivable_time_counterexample:
  "\<not> IsZero (messageTime demoEnv timeOnlyMsg) \<and>
   sum_list (HourlyHistogram (BuildSummary demoEnv [timeOnlyMsg])) = 0"
proof -
  have "messageTime demoEnv timeOnlyMsg = \<lparr>unixNano = 1704103200 * 1000000000, zoneOffset = 0\<rparr>"
    by (simp add: messageTime_def timeOnlyMsg_def blankMessage_def demoEnv_def S_def)
  then have a: "\<not> IsZero (messageTime demoEnv timeOnlyMsg)"
    by (simp add: IsZero_def zeroTime_def)
  have "histogramHour demoEnv timeOnlyMsg = None"
    by (simp add: histogramHour_def timeOnlyMsg_def blankMessage_def)
  then have "sum_list (histogram (run demoEnv 0 [timeOnlyMsg] initial)) = 0"
    using histogram_run [OF histogram_initial(1), of demoEnv 0 "[timeOnlyMsg]"]
    by (simp add: histogram_initial)
  with a show ?thesis by (simp add: HourlyHistogram_BuildSummary)
qed

section \<open>The empty input\<close>

lemma valid_range_Nil: "valid_range f \<Longrightarrow> f [] = []"
proof -
  assume "valid_range f"
  then have "mset (f []) = mset []" unfolding valid_range_def by blast
  then show ?thesis by simp
qed

lemma peak_fold_zero:
  "\<forall>i<length h. h ! i = 0 \<Longrightarrow> k \<le> length h \<Longrightarrow>
   foldl (\<lambda>(peakHour, peakValue) i. if h ! i > peakValue then (i, h ! i) else (peakHour, peakValue))
     (0, 0) [0 ..< k] = (0, 0::nat)"
  by (induction k) auto

lemma peakOf_zero: "peakOf (replicate n 0) = 0"
  using peak_fold_zero [of "replicate n 0" n] by (simp add: peakOf_def)

text \<open>
  C8, as the code has it. On the empty input the summary has zero counts, 24 empty buckets,
  no senders, links, keywords or topics, zero-valued group vibes and reply debt, and
  exactly one highlight, the headline that \<^verbatim>\<open>buildHighlights\<close> always writes.
\<close>

theorem empty_input_summary:
  "valid_range (mapRange E) \<Longrightarrow>
   BuildSummary E [] =
     \<lparr>TotalMessages = 0, UniqueSenders = 0, TopSenders = [], TopLinks = [],
      HourlyHistogram = replicate 24 0, Keywords = [], PeakHour = 0,
      Highlights = [sprintf E (literal E FmtHeadline) [ArgInt 0, ArgInt 0, ArgInt 0, ArgInt 0]],
      Topics = [], ImageCount = 0, GroupVibes = zeroVibes, ReplyDebt = zeroDebt\<rparr>"
  by (simp add: BuildSummary_def Let_def initial_def topK_def topKKeys_def mapEntries_def
      sort_Slice_def peakOf_zero buildHighlights_def buildGroupVibes_def buildReplyDebt_def
      valid_range_Nil)

lemma Highlights_nonempty: "Highlights (BuildSummary E msgs) \<noteq> []"
  by (simp add: BuildSummary_def Let_def buildHighlights_def)

text \<open>C8 as stated fails: the highlights of the empty input are not empty.\<close>

theorem empty_input_highlights_counterexample:
  "Highlights (BuildSummary demoEnv []) \<noteq> []"
  by (rule Highlights_nonempty)

section \<open>Sentiment signals\<close>

lemma lexiconHit_eq:
  "lexiconHit lexicon text lower =
     (if \<exists>token \<in> set lexicon. token \<noteq> [] \<and> (Contains text token \<or> Contains lower token) then 1 else 0)"
  by (induction lexicon) auto

lemma emojiSignals_eq:
  "emojiSignals E es pn =
     (fst pn + real (length (filter (\<lambda>e. TrimSpace e \<noteq> [] \<and> TrimSpace e \<in> set (positiveEmojiSet E)) es)) / 2,
      snd pn + real (length (filter (\<lambda>e. TrimSpace e \<noteq> [] \<and> TrimSpace e \<in> set (negativeEmojiSet E)) es)) / 2)"
  by (induction es arbitrary: pn) (auto simp: Let_def)

text \<open>
  C9. The text adds exactly 1 to the positive signal when some non-empty term of the
  positive lexicon occurs in the text or in its lower-case form, and 0 otherwise, however
  many terms occur; every emoji whose trimmed token is in the positive set adds one half;
  and the same holds of the negative signal.
\<close>

theorem sentiment_saturates_per_message:
  "sentimentSignals E text emojis =
     ((if \<exists>token \<in> set (positiveLexicons E).
            token \<noteq> [] \<and> (Contains text token \<or> Contains (map (ToLower E) text) token)
       then 1 else 0) +
      real (length (filter (\<lambda>e. TrimSpace e \<noteq> [] \<and> TrimSpace e \<in> set (positiveEmojiSet E)) emojis)) / 2,
      (if \<exists>token \<in> set (negativeLexicons E).
            token \<noteq> [] \<and> (Contains text token \<or> Contains (map (ToLower E) text) token)
       then 1 else 0) +
      real (length (filter (\<lambda>e. TrimSpace e \<noteq> [] \<and> TrimSpace e \<in> set (negativeEmojiSet E)) emojis)) / 2)"
proof (cases "text = [] \<and> emojis = []")
  case True
  then show ?thesis by (auto simp: sentimentSignals_def Contains_def)
next
  case False
  then show ?thesis
    by (simp add: sentimentSignals_def Let_def emojiSignals_eq lexiconHit_eq)
qed


theorem empty_input_summary_witness:
  "valid_range (mapRange demoEnv) \<and> TotalMessages (BuildSummary demoEnv []) = 0 \<and>
   UniqueSenders (BuildSummary demoEnv []) = 0 \<and> Topics (BuildSummary demoEnv []) = [] \<and>
   length (Highlights (BuildSummary demoEnv [])) = 1"
  using empty_input_summary [OF valid_range_demoEnv] by (simp add: valid_range_demoEnv)

lemma sublist_eval:
  "sublist (x # xs) (y # ys) = (prefix (x # xs) (y # ys) \<or> sublist (x # xs) ys)"
  by (simp add: sublist_Cons_right)

theorem sentiment_saturates_per_message_witness:
  "sentimentSignals demoEnv (S ''Nice, great!'') [S ''OK'', S '' OK '', S ''x''] = (2, 0)"
  using sentiment_saturates_per_message [of demoEnv "S ''Nice, great!''" "[S ''OK'', S '' OK '', S ''x'']"]
  by (simp add: demoEnv_def S_def Contains_def sublist_eval TrimSpace_def IsSpace_def)

section \<open>Topics\<close>

lemma messagesText_step:
  "messagesText (step E idx m st) =
     messagesText st @ (if messageText m \<noteq> [] then [messageText m] else [])"
  by (simp add: step_def Let_def)

lemma messagesText_run:
  "messagesText (run E idx msgs st) =
     messagesText st @ filter (\<lambda>t. t \<noteq> []) (map messageText msgs)"
  by (induction msgs arbitrary: idx st) (auto simp: messagesText_step)

lemma Topics_BuildSummary:
  "Topics (BuildSummary E msgs) =
     buildTopics (map kv_Key (topK E (tokenCount (run E 0 msgs initial)) 20))
       (filter (\<lambda>t. t \<noteq> []) (map messageText msgs)) [] []"
  by (simp add: BuildSummary_def Let_def messagesText_run initial_def)

lemma buildTopics_Cons:
  "buildTopics (tk # rest) texts used topics =
     (if 5 \<le> length topics then topics
      else if accepts tk texts used
        then buildTopics rest texts (tk # used) (topics @ [newTopic tk texts])
      else buildTopics rest texts used topics)"
  by (auto simp: Let_def accepts_def newTopic_def list_ex_iff)

lemma buildTopics_length:
  "length topics \<le> 5 \<Longrightarrow> length (buildTopics toks texts used topics) \<le> 5"
proof (induction toks arbitrary: used topics)
  case Nil
  then show ?case by simp
next
  case (Cons tk rest)
  show ?case
    unfolding buildTopics_Cons using Cons.prems by (auto intro!: Cons.IH)
qed

lemma buildTopics_count:
  "\<forall>t \<in> set topics. strong texts t \<Longrightarrow>
   \<forall>t \<in> set (buildTopics toks texts used topics). strong texts t"
proof (induction toks arbitrary: used topics)
  case Nil
  then show ?case by simp
next
  case (Cons tk rest)
  show ?case
  proof (cases "\<not> 5 \<le> length topics \<and> accepts tk texts used")
    case True
    then have "strong texts (newTopic tk texts)"
      by (simp add: accepts_def newTopic_def strong_def)
    then have "\<forall>t \<in> set (topics @ [newTopic tk texts]). strong texts t"
      using Cons.prems by simp
    from Cons.IH [OF this] True show ?thesis
      by (simp add: buildTopics_Cons del: buildTopics.simps(2))
  next
    case False
    with Cons.IH [OF Cons.prems] Cons.prems show ?thesis
      by (auto simp: buildTopics_Cons simp del: buildTopics.simps(2))
  qed
qed

lemma apart_snoc:
  "apart names \<Longrightarrow> \<forall>k \<in> set names. \<not> Contains k tk \<and> \<not> Contains tk k \<Longrightarrow> apart (names @ [tk])"
  unfolding apart_def by (auto simp: Contains_def)

lemma buildTopics_apart:
  "set used = set (map topic_Name topics) \<Longrightarrow> apart (map topic_Name topics) \<Longrightarrow>
   apart (map topic_Name (buildTopics toks texts used topics))"
proof (induction toks arbitrary: used topics)
  case Nil
  then show ?case by simp
next
  case (Cons tk rest)
  show ?case
  proof (cases "\<not> 5 \<le> length topics \<and> accepts tk texts used")
    case True
    then have no: "\<forall>k \<in> set (map topic_Name topics). \<not> Contains k tk \<and> \<not> Contains tk k"
      using Cons.prems(1) by (simp add: accepts_def)
    have a: "apart (map topic_Name (topics @ [newTopic tk texts]))"
      using apart_snoc [OF Cons.prems(2) no] by (simp add: newTopic_def)
    have s: "set (tk # used) = set (map topic_Name (topics @ [newTopic tk texts]))"
      using Cons.prems(1) by (auto simp: newTopic_def)
    from Cons.IH [OF s a] True show ?thesis
      by (simp add: buildTopics_Cons del: buildTopics.simps(2))
  next
    case False
    with Cons.IH [OF Cons.prems] Cons.prems show ?thesis
      by (auto simp: buildTopics_Cons simp del: buildTopics.simps(2))
  qed
qed

lemma apart_nth:
  "apart names \<Longrightarrow> i < length names \<Longrightarrow> j < length names \<Longrightarrow> i \<noteq> j \<Longrightarrow>
   \<not> Contains (names ! i) (names ! j)"
  unfolding apart_def by (metis nth_eq_iff_index_eq nth_mem)

text \<open>
  C5. The summary has at most 5 topics; the count of every topic is at least 3 and is the
  number of message texts that contain its name; and of two topics at different positions
  neither name contains the other.
\<close>

theorem topics_bounded_strong_and_apart:
  "length (Topics (BuildSummary E msgs)) \<le> 5 \<and>
   (\<forall>t \<in> set (Topics (BuildSummary E msgs)).
      3 \<le> topic_Count t \<and>
      topic_Count t =
        length (filter (\<lambda>x. Contains x (topic_Name t)) (filter (\<lambda>t. t \<noteq> []) (map messageText msgs)))) \<and>
   (\<forall>i < length (Topics (BuildSummary E msgs)). \<forall>j < length (Topics (BuildSummary E msgs)).
      i \<noteq> j \<longrightarrow>
      \<not> Contains (topic_Name (Topics (BuildSummary E msgs) ! i))
                  (topic_Name (Topics (BuildSummary E msgs) ! j)))"
proof -
  let ?ts = "Topics (BuildSummary E msgs)"
  have l: "length ?ts \<le> 5"
    unfolding Topics_BuildSummary by (rule buildTopics_length) simp
  have "\<forall>t \<in> set ?ts. strong (filter (\<lambda>t. t \<noteq> []) (map messageText msgs)) t"
    unfolding Topics_BuildSummary by (rule buildTopics_count) simp
  then have c: "\<forall>t \<in> set ?ts. 3 \<le> topic_Count t \<and>
      topic_Count t =
        length (filter (\<lambda>x. Contains x (topic_Name t)) (filter (\<lambda>t. t \<noteq> []) (map messageText msgs)))"
    unfolding strong_def .
  have "apart (map topic_Name ?ts)"
    unfolding Topics_BuildSummary by (rule buildTopics_apart) (simp_all add: apart_def)
  then have "\<forall>i < length ?ts. \<forall>j < length ?ts. i \<noteq> j \<longrightarrow>
      \<not> Contains (topic_Name (?ts ! i)) (topic_Name (?ts ! j))"
    using apart_nth [of "map topic_Name ?ts"] by auto
  with l c show ?thesis by blast
qed

lemma tokenCount_step:
  "tokenCount (step E idx m st) =
     foldl (\<lambda>c tok. bump tok c) (tokenCount st) (countedTokens E (messageText m))"
  by (simp add: step_def Let_def)

lemma countedTokens_abc: "countedTokens demoEnv (S ''abc'') = [S ''abc'']"
  by (simp add: countedTokens_def asciiTokens_def Fields_def isAsciiAlnum_def IsSpace_def
      asciiLower_def stopwordEN_def chineseGrams_def flush_def demoEnv_def S_def)

lemma messageText_abcMsg: "messageText abcMsg = S ''abc''"
  by (simp add: messageText_def abcMsg_def blankMessage_def S_def)

lemma Topics_abc:
  "Topics (BuildSummary demoEnv [abcMsg, abcMsg, abcMsg]) =
     [\<lparr>topic_Name = S ''abc'', topic_Keywords = [S ''abc''], topic_Count = 3,
       topic_Representative = S ''abc''\<rparr>]"
proof -
  have "tokenCount (run demoEnv 0 [abcMsg, abcMsg, abcMsg] initial) = [(S ''abc'', 3)]"
    by (simp add: tokenCount_step messageText_abcMsg countedTokens_abc initial_def)
  moreover have "mapRange demoEnv [(S ''abc'', 3)] = [(S ''abc'', 3)]"
    by (simp add: demoEnv_def)
  ultimately have "map kv_Key (topK demoEnv (tokenCount (run demoEnv 0 [abcMsg, abcMsg, abcMsg] initial)) 20)
      = [S ''abc'']"
    by (simp add: topK_def mapEntries_def sort_Slice_def)
  then show ?thesis
    by (simp add: Topics_BuildSummary messageText_abcMsg)
       (simp add: S_def Contains_def sublist_eval runeLen_def)
qed

theorem topics_bounded_strong_and_apart_witness:
  "length (Topics (BuildSummary demoEnv [abcMsg, abcMsg, abcMsg])) = 1 \<and>
   3 \<le> topic_Count (Topics (BuildSummary demoEnv [abcMsg, abcMsg, abcMsg]) ! 0) \<and>
   topic_Count (Topics (BuildSummary demoEnv [abcMsg, abcMsg, abcMsg]) ! 0) =
     length (filter (\<lambda>x. Contains x (topic_Name (Topics (BuildSummary demoEnv [abcMsg, abcMsg, abcMsg]) ! 0)))
       (filter (\<lambda>t. t \<noteq> []) (map messageText [abcMsg, abcMsg, abcMsg])))"
proof -
  have "Topics (BuildSummary demoEnv [abcMsg, abcMsg, abcMsg]) ! 0
      \<in> set (Topics (BuildSummary demoEnv [abcMsg, abcMsg, abcMsg]))"
    by (simp add: Topics_abc)
  with topics_bounded_strong_and_apart [of demoEnv "[abcMsg, abcMsg, abcMsg]"]
  have "3 \<le> topic_Count (Topics (BuildSummary demoEnv [abcMsg, abcMsg, abcMsg]) ! 0) \<and>
   topic_Count (Topics (BuildSummary demoEnv [abcMsg, abcMsg, abcMsg]) ! 0) =
     length (filter (\<lambda>x. Contains x (topic_Name (Topics (BuildSummary demoEnv [abcMsg, abcMsg, abcMsg]) ! 0)))
       (filter (\<lambda>t. t \<noteq> []) (map messageText [abcMsg, abcMsg, abcMsg])))"
    by blast
  moreover have "length (Topics (BuildSummary demoEnv [abcMsg, abcMsg, abcMsg])) = 1"
    by (simp add: Topics_abc)
  ultimately show ?thesis by blast
qed

section \<open>Group vibes\<close>

subsection \<open>The rounding of float64\<close>















subsection \<open>Bounds and the error of the score\<close>
















subsection \<open>Eight messages with one negative term each\<close>







subsection \<open>The arithmetic of the example\<close>



















section \<open>The question ledger\<close>

lemma questions_step:
  "questions (step E idx m st) =
     map (resolveQuestion E idx m (messageText m) (messageTime E m)) (questions st) @
     (if shouldTrackQuestion m (messageText m) then [newQuestion E idx m (messageTime E m)] else [])"
  by (simp add: step_def Let_def)

lemma run_append: "run E idx (xs @ ys) st = run E (idx + length xs) ys (run E idx xs st)"
  by (induction xs arbitrary: idx st) auto

lemma run_take_Suc:
  "n < length msgs \<Longrightarrow>
   run E 0 (take (Suc n) msgs) st = step E n (msgs ! n) (run E 0 (take n msgs) st)"
  by (simp add: take_Suc_conv_app_nth run_append)

lemma normalizeName_Nil: "normalizeName E [] = []"
  by (simp add: normalizeName_def)

lemma resolveQuestion_cases:
  "resolveQuestion E idx m text t q =
     (if \<not> q_Resolved q \<and> q_Index q < idx \<and> \<not> IsZero t \<and>
         (IsZero (q_AskedAt q) \<or> \<not> Before t (q_AskedAt q)) \<and> matchesQuestionResponse E m q text
      then q\<lparr>q_Resolved := True,
             q_ResponseMinutes := (if \<not> IsZero (q_AskedAt q) \<and> After t (q_AskedAt q)
                                   then Minutes (Sub t (q_AskedAt q)) else q_ResponseMinutes q),
             q_ResponseHour := int (Hour t),
             q_Responders := (if senderDisplay m \<noteq> []
                              then mapPut (normalizeName E (senderDisplay m)) (senderDisplay m) (q_Responders q)
                              else q_Responders q)\<rparr>
      else q)"
  by (auto simp: resolveQuestion_def Let_def)

lemma resolveQuestion_resolved: "q_Resolved q \<Longrightarrow> resolveQuestion E idx m text t q = q"
  by (simp add: resolveQuestion_def)

lemma resolveQuestion_keeps:
  "q_Index (resolveQuestion E idx m text t q) = q_Index q"
  "q_Message (resolveQuestion E idx m text t q) = q_Message q"
  "q_AskedAt (resolveQuestion E idx m text t q) = q_AskedAt q"
  "q_Mentions (resolveQuestion E idx m text t q) = q_Mentions q"
  "q_NormalizedQuestioner (resolveQuestion E idx m text t q) = q_NormalizedQuestioner q"
  by (simp_all add: resolveQuestion_cases)

lemma matches_needs_questioner:
  "q_NormalizedQuestioner q = normalizeName E (senderDisplay (q_Message q)) \<Longrightarrow>
   matchesQuestionResponse E m q text \<Longrightarrow> q_NormalizedQuestioner q \<noteq> []"
  by (auto simp: matchesQuestionResponse_def Let_def split: if_splits)

lemma wellFormed_resolveQuestion:
  "wellFormed E q \<Longrightarrow> wellFormed E (resolveQuestion E idx m body t q)"
  using matches_needs_questioner [of q E m body]
  by (auto simp: wellFormed_def resolveQuestion_cases)

lemma wellFormed_newQuestion: "wellFormed E (newQuestion E idx m t)"
  by (simp add: wellFormed_def newQuestion_def)

lemma wellFormed_step:
  "\<forall>q \<in> set (questions st). wellFormed E q \<Longrightarrow>
   \<forall>q \<in> set (questions (step E idx m st)). wellFormed E q"
  by (auto simp: questions_step wellFormed_resolveQuestion wellFormed_newQuestion)

lemma wellFormed_run:
  "\<forall>q \<in> set (questions st). wellFormed E q \<Longrightarrow>
   \<forall>q \<in> set (questions (run E idx msgs st)). wellFormed E q"
proof (induction msgs arbitrary: idx st)
  case Nil
  then show ?case by simp
next
  case (Cons m ms)
  from Cons.IH [OF wellFormed_step [OF Cons.prems]] show ?case by simp
qed

lemma index_bound_step:
  "\<forall>q \<in> set (questions st). q_Index q < idx \<Longrightarrow>
   \<forall>q \<in> set (questions (step E idx m st)). q_Index q < Suc idx"
  by (auto simp: questions_step resolveQuestion_keeps newQuestion_def less_Suc_eq)

lemma index_bound_run:
  "\<forall>q \<in> set (questions st). q_Index q < idx \<Longrightarrow>
   \<forall>q \<in> set (questions (run E idx msgs st)). q_Index q < idx + length msgs"
proof (induction msgs arbitrary: idx st)
  case Nil
  then show ?case by simp
next
  case (Cons m ms)
  from Cons.IH [OF index_bound_step [OF Cons.prems]] show ?case by simp
qed

lemma entry_persists_step:
  "q \<in> set (questions st) \<Longrightarrow>
   \<exists>q' \<in> set (questions (step E idx m st)). q_Index q' = q_Index q \<and> q_Message q' = q_Message q"
proof -
  assume "q \<in> set (questions st)"
  then have "resolveQuestion E idx m (messageText m) (messageTime E m) q \<in> set (questions (step E idx m st))"
    by (simp add: questions_step)
  then show ?thesis using resolveQuestion_keeps(1,2) by metis
qed

lemma entry_persists_run:
  "q \<in> set (questions st) \<Longrightarrow>
   \<exists>q' \<in> set (questions (run E idx msgs st)). q_Index q' = q_Index q \<and> q_Message q' = q_Message q"
proof (induction msgs arbitrary: idx st q)
  case Nil
  then show ?case by auto
next
  case (Cons m ms)
  from entry_persists_step [OF Cons.prems, where idx = idx and m = m and E = E] obtain q1 where
    q1: "q1 \<in> set (questions (step E idx m st))" "q_Index q1 = q_Index q" "q_Message q1 = q_Message q"
    by blast
  from Cons.IH [OF q1(1), of "Suc idx"] q1(2,3) show ?case by auto
qed

lemma tracked_entry_exists:
  "i < length msgs \<Longrightarrow> shouldTrackQuestion (msgs ! i) (messageText (msgs ! i)) \<Longrightarrow>
   \<exists>q \<in> set (questions (run E idx msgs st)). q_Index q = idx + i \<and> q_Message q = msgs ! i"
proof (induction msgs arbitrary: i idx st)
  case Nil
  then show ?case by simp
next
  case (Cons m ms)
  show ?case
  proof (cases i)
    case 0
    with Cons.prems have "newQuestion E idx m (messageTime E m) \<in> set (questions (step E idx m st))"
      by (simp add: questions_step)
    from entry_persists_run [OF this, where idx = "Suc idx" and msgs = ms] 0 show ?thesis
      by (auto simp: newQuestion_def)
  next
    case (Suc k)
    with Cons.prems have "k < length ms" "shouldTrackQuestion (ms ! k) (messageText (ms ! k))"
      by simp_all
    from Cons.IH [OF this, of "Suc idx" "step E idx m st"] Suc show ?thesis by simp
  qed
qed

lemma length_questions_step: "length (questions st) \<le> length (questions (step E idx m st))"
  by (simp add: questions_step)

lemma resolved_stays_step:
  "j < length (questions st) \<Longrightarrow> q_Resolved (questions st ! j) \<Longrightarrow>
   questions (step E idx m st) ! j = questions st ! j"
  by (simp add: questions_step nth_append resolveQuestion_resolved)

lemma resolved_stays_run:
  "j < length (questions st) \<Longrightarrow> q_Resolved (questions st ! j) \<Longrightarrow>
   j < length (questions (run E idx msgs st)) \<and> questions (run E idx msgs st) ! j = questions st ! j"
proof (induction msgs arbitrary: idx st)
  case Nil
  then show ?case by simp
next
  case (Cons m ms)
  have l: "j < length (questions (step E idx m st))"
    using Cons.prems(1) length_questions_step [of st E idx m] by simp
  have e: "questions (step E idx m st) ! j = questions st ! j"
    using Cons.prems by (rule resolved_stays_step)
  with Cons.prems have "q_Resolved (questions (step E idx m st) ! j)" by simp
  from Cons.IH [OF l this, of "Suc idx"] e show ?case by simp
qed

section \<open>Reply debt\<close>

lemma foldl_debtStep_lists:
  "Resolved (rd (foldl (debtStep E lastT) d qs)) =
     Resolved (rd d) @ map (resolvedItem E) (filter q_Resolved qs) \<and>
   Outstanding (rd (foldl (debtStep E lastT) d qs)) =
     Outstanding (rd d) @ map (outstandingItem E lastT) (filter (\<lambda>q. \<not> q_Resolved q) qs)"
  by (induction qs arbitrary: d) (simp_all add: debtStep_def)

lemma buildReplyDebt_lists:
  "Resolved (buildReplyDebt E qs lastT) = map (resolvedItem E) (filter q_Resolved qs)"
  "Outstanding (buildReplyDebt E qs lastT) =
     map (outstandingItem E lastT) (filter (\<lambda>q. \<not> q_Resolved q) qs)"
  by (simp_all add: buildReplyDebt_def Let_def foldl_debtStep_lists zeroDebt_def)

lemma ReplyDebt_BuildSummary:
  "ReplyDebt (BuildSummary E msgs) =
     buildReplyDebt E (questions (run E 0 msgs initial)) (lastTime (run E 0 msgs initial))"
  by (simp add: BuildSummary_def Let_def)

lemma length_filter_partition:
  "length (filter (\<lambda>q. \<not> P q) qs) + length (filter P qs) = length qs"
  by (induction qs) auto

text \<open>
  C6. The resolved list of the reply debt holds the items of exactly the resolved entries
  of the ledger, and the outstanding list those of exactly the open entries, both in
  ledger order, so that every entry is in one list and not in the other and the two
  lengths add up to the length of the ledger. An entry that is resolved after the first
  \<open>n\<close> messages is still there, at the same position and with all its fields unchanged,
  after the whole input: a resolved entry is returned as it is by the loop body,
  whatever the later message.
\<close>

theorem ledger_entries_partitioned_and_stable:
  "(let qs = questions (run E 0 msgs initial);
        debt = ReplyDebt (BuildSummary E msgs)
    in Resolved debt = map (resolvedItem E) (filter q_Resolved qs) \<and>
       Outstanding debt =
         map (outstandingItem E (lastTime (run E 0 msgs initial))) (filter (\<lambda>q. \<not> q_Resolved q) qs) \<and>
       length (Outstanding debt) + length (Resolved debt) = length qs \<and>
       (\<forall>n j. n \<le> length msgs \<and> j < length (questions (run E 0 (take n msgs) initial)) \<and>
              q_Resolved (questions (run E 0 (take n msgs) initial) ! j) \<longrightarrow>
              j < length qs \<and> qs ! j = questions (run E 0 (take n msgs) initial) ! j)) \<and>
   (\<forall>q idx m text t. q_Resolved q \<longrightarrow> resolveQuestion E idx m text t q = q)"
proof -
  let ?qs = "questions (run E 0 msgs initial)"
  have stable: "j < length ?qs \<and> ?qs ! j = questions (run E 0 (take n msgs) initial) ! j"
    if "n \<le> length msgs" "j < length (questions (run E 0 (take n msgs) initial))"
       "q_Resolved (questions (run E 0 (take n msgs) initial) ! j)" for n j
  proof -
    have "run E 0 msgs initial = run E (0 + length (take n msgs)) (drop n msgs) (run E 0 (take n msgs) initial)"
      using run_append [of E 0 "take n msgs" "drop n msgs" initial] by simp
    then show ?thesis using resolved_stays_run [OF that(2,3)] by simp
  qed
  have lists: "Resolved (ReplyDebt (BuildSummary E msgs)) = map (resolvedItem E) (filter q_Resolved ?qs)"
    "Outstanding (ReplyDebt (BuildSummary E msgs)) =
       map (outstandingItem E (lastTime (run E 0 msgs initial))) (filter (\<lambda>q. \<not> q_Resolved q) ?qs)"
    by (simp_all only: ReplyDebt_BuildSummary buildReplyDebt_lists)
  have total: "length (Outstanding (ReplyDebt (BuildSummary E msgs))) +
      length (Resolved (ReplyDebt (BuildSummary E msgs))) = length ?qs"
    by (simp only: lists length_map length_filter_partition)
  have keep: "\<forall>q idx m body t. q_Resolved q \<longrightarrow> resolveQuestion E idx m body t q = q"
    by (simp add: resolveQuestion_resolved)
  show ?thesis
    unfolding Let_def using lists total keep stable by blast
qed

text \<open>
  C10. A message that passes \<^verbatim>\<open>shouldTrackQuestion\<close> and whose display name is blank
  opens an entry: the ledger of the whole pass holds an entry with its index and message,
  whose normalized questioner is empty, which is not resolved, which no message matches
  and no iteration of the loop changes, and whose item is in the outstanding list.
\<close>

theorem blank_sender_question_stays_outstanding:
  "i < length msgs \<Longrightarrow> shouldTrackQuestion (msgs ! i) (messageText (msgs ! i)) \<Longrightarrow>
   senderDisplay (msgs ! i) = [] \<Longrightarrow>
   \<exists>q \<in> set (questions (run E 0 msgs initial)).
     q_Index q = i \<and> q_Message q = msgs ! i \<and> q_NormalizedQuestioner q = [] \<and>
     \<not> q_Resolved q \<and>
     (\<forall>m text. \<not> matchesQuestionResponse E m q text) \<and>
     (\<forall>idx m text t. resolveQuestion E idx m text t q = q) \<and>
     outstandingItem E (lastTime (run E 0 msgs initial)) q
       \<in> set (Outstanding (ReplyDebt (BuildSummary E msgs)))"
proof -
  assume i: "i < length msgs" and tr: "shouldTrackQuestion (msgs ! i) (messageText (msgs ! i))"
    and blank: "senderDisplay (msgs ! i) = []"
  from tracked_entry_exists [OF i tr, where E = E and idx = 0 and st = initial] obtain q where
    q: "q \<in> set (questions (run E 0 msgs initial))" "q_Index q = i" "q_Message q = msgs ! i"
    by auto
  have "wellFormed E q"
    using wellFormed_run [where st = initial and E = E and idx = 0 and msgs = msgs] q(1) by (simp add: initial_def)
  then have nq: "q_NormalizedQuestioner q = []" and unres: "\<not> q_Resolved q"
    using q(3) blank by (auto simp: wellFormed_def normalizeName_Nil)
  have nomatch: "\<not> matchesQuestionResponse E m q body" for m body
    using nq q(3) blank by (simp add: matchesQuestionResponse_def normalizeName_Nil)
  then have same: "resolveQuestion E idx m body t q = q" for idx m body t
    by (simp add: resolveQuestion_cases)
  have "outstandingItem E (lastTime (run E 0 msgs initial)) q
       \<in> set (Outstanding (ReplyDebt (BuildSummary E msgs)))"
    using q(1) unres by (simp add: ReplyDebt_BuildSummary buildReplyDebt_lists)
  with q nq unres nomatch same show ?thesis by blast
qed

section \<open>The rule that resolves an entry\<close>

lemma matchesQuestionResponse_iff:
  assumes "q_NormalizedQuestioner q = normalizeName E (senderDisplay (q_Message q))"
  shows "matchesQuestionResponse E m q body \<longleftrightarrow>
     q_NormalizedQuestioner q \<noteq> [] \<and> normalizeName E (senderDisplay m) \<noteq> [] \<and>
     normalizeName E (senderDisplay m) \<noteq> q_NormalizedQuestioner q \<and>
     ((\<exists>ref. Reference m = Some ref \<and>
          (normalizeName E (ref_SenderName ref) = q_NormalizedQuestioner q \<or>
           (TrimSpace (ref_Content ref) \<noteq> [] \<and> TrimSpace (Content (q_Message q)) \<noteq> [] \<and>
            (Contains (TrimSpace (Content (q_Message q))) (TrimSpace (ref_Content ref)) \<or>
             Contains (TrimSpace (ref_Content ref)) (TrimSpace (Content (q_Message q))))))) \<or>
      (\<exists>mention \<in> set (Mentions m). normalizeName E mention = q_NormalizedQuestioner q) \<or>
      (\<exists>target \<in> set (q_Mentions q). normalizeName E target = normalizeName E (senderDisplay m)))"
  using assms
  by (cases "Reference m") (auto simp: matchesQuestionResponse_def Let_def list_ex_iff)

text \<open>
  C1, as the code has it. When the message at index \<open>idx\<close> is processed, the loop body is
  applied to every entry of the ledger (all have a smaller index), and an open entry
  becomes resolved exactly when the time of the message is known, it is not before a known
  asked-at time, the normalized identities of questioner and sender are not empty and
  differ, and one of (a) the referenced sender name normalizes to the questioner, (b) the
  trimmed contents of the reference and of the question are not empty and one contains the
  other, (c) a mention normalizes to the questioner, (d) a mention of the question
  normalizes to the sender. The resolved entry has the latency in minutes when the asked-at
  time is known and earlier and 0 otherwise, the hour of the message as response hour, and
  the sender's display name under its normalized identity as its only responder; an entry
  that is not resolved is unchanged.
\<close>

theorem resolution_rule_of_the_pass:
  "idx < length msgs \<Longrightarrow> q \<in> set (questions (run E 0 (take idx msgs) initial)) \<Longrightarrow>
   \<not> q_Resolved q \<Longrightarrow>
   (let m = msgs ! idx;
        t = messageTime E m;
        q' = resolveQuestion E idx m (messageText m) t q;
        questioner = q_NormalizedQuestioner q;
        responder = normalizeName E (senderDisplay m)
    in q_Index q < idx \<and>
       questions (run E 0 (take (Suc idx) msgs) initial) =
         map (resolveQuestion E idx m (messageText m) t) (questions (run E 0 (take idx msgs) initial)) @
         (if shouldTrackQuestion m (messageText m) then [newQuestion E idx m t] else []) \<and>
       (q_Resolved q' \<longleftrightarrow>
          \<not> IsZero t \<and> (IsZero (q_AskedAt q) \<or> \<not> Before t (q_AskedAt q)) \<and>
          questioner \<noteq> [] \<and> responder \<noteq> [] \<and> responder \<noteq> questioner \<and>
          ((\<exists>ref. Reference m = Some ref \<and>
               (normalizeName E (ref_SenderName ref) = questioner \<or>
                (TrimSpace (ref_Content ref) \<noteq> [] \<and> TrimSpace (Content (q_Message q)) \<noteq> [] \<and>
                 (Contains (TrimSpace (Content (q_Message q))) (TrimSpace (ref_Content ref)) \<or>
                  Contains (TrimSpace (ref_Content ref)) (TrimSpace (Content (q_Message q))))))) \<or>
           (\<exists>mention \<in> set (Mentions m). normalizeName E mention = questioner) \<or>
           (\<exists>target \<in> set (q_Mentions q). normalizeName E target = responder))) \<and>
       (q_Resolved q' \<longrightarrow>
          q' = q\<lparr>q_Resolved := True,
                 q_ResponseMinutes := (if \<not> IsZero (q_AskedAt q) \<and> After t (q_AskedAt q)
                                       then Minutes (Sub t (q_AskedAt q)) else 0),
                 q_ResponseHour := int (Hour t),
                 q_Responders := [(responder, senderDisplay m)]\<rparr>) \<and>
       (\<not> q_Resolved q' \<longrightarrow> q' = q))"
proof -
  assume idx: "idx < length msgs" and q: "q \<in> set (questions (run E 0 (take idx msgs) initial))"
    and open_q: "\<not> q_Resolved q"
  let ?m = "msgs ! idx"
  let ?t = "messageTime E ?m"
  have wf: "wellFormed E q"
    using wellFormed_run [where st = initial and E = E and idx = 0 and msgs = "take idx msgs"] q
    by (simp add: initial_def)
  have "q_Index q < 0 + length (take idx msgs)"
    using index_bound_run [where st = initial and E = E and idx = 0 and msgs = "take idx msgs"] q
    by (simp add: initial_def)
  then have bound: "q_Index q < idx" using idx by simp
  have ledger: "questions (run E 0 (take (Suc idx) msgs) initial) =
         map (resolveQuestion E idx ?m (messageText ?m) ?t) (questions (run E 0 (take idx msgs) initial)) @
         (if shouldTrackQuestion ?m (messageText ?m) then [newQuestion E idx ?m ?t] else [])"
    by (simp only: run_take_Suc [OF idx] questions_step)
  have nq: "q_NormalizedQuestioner q = normalizeName E (senderDisplay (q_Message q))"
    and zero: "q_ResponseMinutes q = 0" "q_Responders q = []"
    using wf open_q by (simp_all add: wellFormed_def)
  note mi = matchesQuestionResponse_iff [OF nq, of ?m "messageText ?m"]
  have disp: "senderDisplay ?m \<noteq> []" if "normalizeName E (senderDisplay ?m) \<noteq> []"
    using that normalizeName_Nil by metis
  have res: "q_Resolved (resolveQuestion E idx ?m (messageText ?m) ?t q) \<longleftrightarrow>
      \<not> IsZero ?t \<and> (IsZero (q_AskedAt q) \<or> \<not> Before ?t (q_AskedAt q)) \<and>
      matchesQuestionResponse E ?m q (messageText ?m)"
    using open_q bound by (simp add: resolveQuestion_cases)
  have val: "resolveQuestion E idx ?m (messageText ?m) ?t q =
      q\<lparr>q_Resolved := True,
        q_ResponseMinutes := (if \<not> IsZero (q_AskedAt q) \<and> After ?t (q_AskedAt q)
                              then Minutes (Sub ?t (q_AskedAt q)) else 0),
        q_ResponseHour := int (Hour ?t),
        q_Responders := [(normalizeName E (senderDisplay ?m), senderDisplay ?m)]\<rparr>"
    if "q_Resolved (resolveQuestion E idx ?m (messageText ?m) ?t q)"
  proof -
    from that res have c: "\<not> IsZero ?t" "IsZero (q_AskedAt q) \<or> \<not> Before ?t (q_AskedAt q)"
      "matchesQuestionResponse E ?m q (messageText ?m)" by simp_all
    from c(3) mi have "normalizeName E (senderDisplay ?m) \<noteq> []" by simp
    then have "senderDisplay ?m \<noteq> []" by (rule disp)
    then show ?thesis using c open_q bound zero by (simp add: resolveQuestion_cases)
  qed
  have same: "resolveQuestion E idx ?m (messageText ?m) ?t q = q"
    if "\<not> q_Resolved (resolveQuestion E idx ?m (messageText ?m) ?t q)"
  proof (cases "\<not> IsZero ?t \<and> (IsZero (q_AskedAt q) \<or> \<not> Before ?t (q_AskedAt q)) \<and>
      matchesQuestionResponse E ?m q (messageText ?m)")
    case True
    with res that show ?thesis by simp
  next
    case False
    then show ?thesis by (auto simp: resolveQuestion_cases)
  qed
  show ?thesis
    unfolding Let_def using bound ledger res mi val same by (simp only: simp_thms) blast
qed

section \<open>Examples of the ledger\<close>

lemma normalizeName_Alice: "normalizeName demoEnv (S ''Alice'') = S ''alice''"
  by (simp add: normalizeName_def TrimSpace_def IsSpace_def nameReplacer_Replace_def demoEnv_def S_def)

lemma normalizeName_Bob: "normalizeName demoEnv (S ''Bob'') = S ''bob''"
  by (simp add: normalizeName_def TrimSpace_def IsSpace_def nameReplacer_Replace_def demoEnv_def S_def)

lemma TrimSpace_Alice: "TrimSpace (S ''Alice'') = S ''Alice''" "TrimSpace (S ''Bob'') = S ''Bob''"
  "TrimSpace (S ''why?'') = S ''why?''" "TrimSpace [] = []"
  by (simp_all add: TrimSpace_def IsSpace_def S_def)

lemma senderDisplay_examples:
  "senderDisplay askMsg = S ''Alice''" "senderDisplay replyMsg = S ''Bob''"
  "senderDisplay askMsgT = S ''Alice''" "senderDisplay replyMsgT = S ''Bob''"
  "senderDisplay anonMsg = []"
  by (simp_all add: senderDisplay_def askMsg_def replyMsg_def askMsgT_def replyMsgT_def anonMsg_def
      blankMessage_def TrimSpace_def IsSpace_def S_def)

lemma messageText_examples:
  "messageText askMsg = S ''why?''" "messageText askMsgT = S ''why?''"
  "messageText anonMsg = S ''why?''"
  "messageText replyMsg = S ''fixed''" "messageText replyMsgT = S ''fixed''"
  by (simp_all add: messageText_def askMsg_def replyMsg_def askMsgT_def replyMsgT_def anonMsg_def
      blankMessage_def S_def)

lemma messageTime_examples:
  "messageTime demoEnv askMsg = zeroTime" "messageTime demoEnv replyMsg = zeroTime"
  "messageTime demoEnv askMsgT = \<lparr>unixNano = 1704103200000000000, zoneOffset = 0\<rparr>"
  "messageTime demoEnv replyMsgT = \<lparr>unixNano = 1704103500000000000, zoneOffset = 0\<rparr>"
  "messageTime demoEnv anonMsg = \<lparr>unixNano = 1704103200000000000, zoneOffset = 0\<rparr>"
  by (simp_all add: messageTime_def askMsg_def replyMsg_def askMsgT_def replyMsgT_def anonMsg_def
      blankMessage_def UnixLocal_def demoEnv_def)

lemma shouldTrack_examples:
  "shouldTrackQuestion askMsg (S ''why?'')" "shouldTrackQuestion askMsgT (S ''why?'')"
  "shouldTrackQuestion anonMsg (S ''why?'')"
  "\<not> shouldTrackQuestion replyMsg body" "\<not> shouldTrackQuestion replyMsgT body"
  by (simp_all add: shouldTrackQuestion_def askMsg_def replyMsg_def askMsgT_def replyMsgT_def
      anonMsg_def blankMessage_def TrimSpace_def IsSpace_def runeLen_def S_def)

lemma IsZero_examples:
  "IsZero zeroTime" "\<not> IsZero \<lparr>unixNano = 1704103200000000000, zoneOffset = 0\<rparr>"
  "\<not> IsZero \<lparr>unixNano = 1704103500000000000, zoneOffset = 0\<rparr>"
  by (simp_all add: IsZero_def zeroTime_def)

lemma uniqueStrings_Nil: "uniqueStrings E [] = []"
  by (simp add: uniqueStrings_def)

lemma Mentions_examples: "Mentions askMsg = []" "Mentions askMsgT = []" "Mentions replyMsgT = []"
  "Mentions replyMsg = []"
  "Reference replyMsgT = Some \<lparr>ref_SenderName = S ''Alice'', ref_Content = S ''why?''\<rparr>"
  "Reference replyMsg = Some \<lparr>ref_SenderName = S ''Alice'', ref_Content = S ''why?''\<rparr>"
  "Content askMsg = S ''why?''"
  by (simp_all add: askMsg_def askMsgT_def replyMsg_def replyMsgT_def blankMessage_def)

lemma ledger_after_question:
  "questions (run demoEnv 0 [askMsgT] initial) =
     [newQuestion demoEnv 0 askMsgT \<lparr>unixNano = 1704103200000000000, zoneOffset = 0\<rparr>]"
  "questions (run demoEnv 0 [askMsg] initial) = [newQuestion demoEnv 0 askMsg zeroTime]"
  by (simp_all add: questions_step messageText_examples messageTime_examples shouldTrack_examples
      initial_def)

lemma alice_bob: "S ''bob'' \<noteq> S ''alice''" "S ''bob'' \<noteq> []" "S ''alice'' \<noteq> []"
  by (simp_all add: S_def)

lemma matches_example:
  "matchesQuestionResponse demoEnv replyMsgT
     (newQuestion demoEnv 0 askMsgT \<lparr>unixNano = 1704103200000000000, zoneOffset = 0\<rparr>) body"
  by (simp add: matchesQuestionResponse_def newQuestion_def senderDisplay_examples
      normalizeName_Alice normalizeName_Bob alice_bob Mentions_examples)

lemma ledger_after_reply:
  "questions (run demoEnv 0 [askMsgT, replyMsgT] initial) =
     [\<lparr>q_Index = 0, q_Message = askMsgT,
       q_AskedAt = \<lparr>unixNano = 1704103200000000000, zoneOffset = 0\<rparr>,
       q_Mentions = [], q_NormalizedQuestioner = S ''alice'', q_Resolved = True,
       q_ResponseMinutes = 5, q_ResponseHour = 10, q_Responders = [(S ''bob'', S ''Bob'')]\<rparr>]"
proof -
  have "run demoEnv 0 [askMsgT, replyMsgT] initial = step demoEnv 1 replyMsgT (run demoEnv 0 [askMsgT] initial)"
    by simp
  then show ?thesis
    by (simp only: questions_step ledger_after_question messageText_examples messageTime_examples
        shouldTrack_examples)
      (simp add: resolveQuestion_cases matches_example IsZero_examples, 
       simp add: newQuestion_def senderDisplay_examples normalizeName_Alice normalizeName_Bob
        Mentions_examples uniqueStrings_Nil Before_def After_def Sub_def Minutes_def Hour_def alice_bob
        IsZero_examples, simp add: S_def)
qed

theorem resolution_rule_of_the_pass_witness:
  "1 < length [askMsgT, replyMsgT] \<and>
   newQuestion demoEnv 0 askMsgT \<lparr>unixNano = 1704103200000000000, zoneOffset = 0\<rparr>
     \<in> set (questions (run demoEnv 0 (take 1 [askMsgT, replyMsgT]) initial)) \<and>
   \<not> q_Resolved (newQuestion demoEnv 0 askMsgT \<lparr>unixNano = 1704103200000000000, zoneOffset = 0\<rparr>) \<and>
   q_Resolved (resolveQuestion demoEnv 1 replyMsgT (messageText replyMsgT) (messageTime demoEnv replyMsgT)
     (newQuestion demoEnv 0 askMsgT \<lparr>unixNano = 1704103200000000000, zoneOffset = 0\<rparr>))"
proof -
  let ?q = "newQuestion demoEnv 0 askMsgT \<lparr>unixNano = 1704103200000000000, zoneOffset = 0\<rparr>"
  have h1: "1 < length [askMsgT, replyMsgT]" by simp
  have h2: "?q \<in> set (questions (run demoEnv 0 (take 1 [askMsgT, replyMsgT]) initial))"
    using ledger_after_question(1) by simp
  have h3: "\<not> q_Resolved ?q" by (simp add: newQuestion_def)
  have nq: "q_NormalizedQuestioner ?q = S ''alice''"
    by (simp add: newQuestion_def senderDisplay_examples normalizeName_Alice)
  have asked: "q_AskedAt ?q = \<lparr>unixNano = 1704103200000000000, zoneOffset = 0\<rparr>"
    by (simp add: newQuestion_def)
  show ?thesis
    using resolution_rule_of_the_pass [OF h1 h2 h3] h1 h2 h3
    by (simp add: Let_def nq asked messageTime_examples IsZero_examples Before_def
        senderDisplay_examples normalizeName_Bob normalizeName_Alice alice_bob Mentions_examples)
qed

text \<open>C1 as stated fails for a message whose time is unknown: the question and the reply
  carry no time, the reply satisfies the rule as the claim words it (its zero time is not
  earlier than the zero asked-at time, it quotes the questioner), and the loop skips it,
  so the entry stays open. The response hour -1 of the claim is never recorded.\<close>

theorem unknown_time_reply_counterexample:
  "questions (run demoEnv 0 [askMsg] initial) = [newQuestion demoEnv 0 askMsg zeroTime] \<and>
   \<not> q_Resolved (newQuestion demoEnv 0 askMsg zeroTime) \<and>
   claimedResolves demoEnv replyMsg (newQuestion demoEnv 0 askMsg zeroTime) \<and>
   questions (run demoEnv 0 [askMsg, replyMsg] initial) = [newQuestion demoEnv 0 askMsg zeroTime]"
proof -
  have a: "questions (run demoEnv 0 [askMsg] initial) = [newQuestion demoEnv 0 askMsg zeroTime]"
    by (rule ledger_after_question(2))
  have b: "\<not> q_Resolved (newQuestion demoEnv 0 askMsg zeroTime)" by (simp add: newQuestion_def)
  have c: "claimedResolves demoEnv replyMsg (newQuestion demoEnv 0 askMsg zeroTime)"
    by (simp add: claimedResolves_def newQuestion_def messageTime_examples Before_def
        senderDisplay_examples normalizeName_Alice normalizeName_Bob alice_bob Mentions_examples)
  have "run demoEnv 0 [askMsg, replyMsg] initial = step demoEnv 1 replyMsg (run demoEnv 0 [askMsg] initial)"
    by simp
  then have d: "questions (run demoEnv 0 [askMsg, replyMsg] initial) = [newQuestion demoEnv 0 askMsg zeroTime]"
    by (simp only: questions_step a messageText_examples messageTime_examples shouldTrack_examples)
       (simp add: resolveQuestion_cases IsZero_examples)
  from a b c d show ?thesis by simp
qed

theorem ledger_entries_partitioned_and_stable_witness:
  "q_Resolved (questions (run demoEnv 0 (take 2 [askMsgT, replyMsgT, replyMsgT]) initial) ! 0) \<and>
   questions (run demoEnv 0 [askMsgT, replyMsgT, replyMsgT] initial) ! 0 =
     questions (run demoEnv 0 (take 2 [askMsgT, replyMsgT, replyMsgT]) initial) ! 0 \<and>
   length (Outstanding (ReplyDebt (BuildSummary demoEnv [askMsgT, replyMsgT, replyMsgT]))) +
   length (Resolved (ReplyDebt (BuildSummary demoEnv [askMsgT, replyMsgT, replyMsgT]))) =
     length (questions (run demoEnv 0 [askMsgT, replyMsgT, replyMsgT] initial))"
proof -
  let ?msgs = "[askMsgT, replyMsgT, replyMsgT]"
  have t: "take 2 ?msgs = [askMsgT, replyMsgT]" by simp
  have r: "q_Resolved (questions (run demoEnv 0 (take 2 ?msgs) initial) ! 0)"
    and l: "0 < length (questions (run demoEnv 0 (take 2 ?msgs) initial))"
    unfolding t by (simp_all only: ledger_after_reply) simp_all
  have n: "2 \<le> length ?msgs" by simp
  from ledger_entries_partitioned_and_stable [of demoEnv ?msgs] n l r show ?thesis
    unfolding Let_def by blast
qed

theorem blank_sender_question_stays_outstanding_witness:
  "0 < length [anonMsg, replyMsgT] \<and>
   shouldTrackQuestion ([anonMsg, replyMsgT] ! 0) (messageText ([anonMsg, replyMsgT] ! 0)) \<and>
   senderDisplay ([anonMsg, replyMsgT] ! 0) = [] \<and>
   (\<exists>q \<in> set (questions (run demoEnv 0 [anonMsg, replyMsgT] initial)).
      q_Index q = 0 \<and> q_NormalizedQuestioner q = [] \<and> \<not> q_Resolved q \<and>
      outstandingItem demoEnv (lastTime (run demoEnv 0 [anonMsg, replyMsgT] initial)) q
        \<in> set (Outstanding (ReplyDebt (BuildSummary demoEnv [anonMsg, replyMsgT]))))"
proof -
  have h1: "0 < length [anonMsg, replyMsgT]" by simp
  have h2: "shouldTrackQuestion ([anonMsg, replyMsgT] ! 0) (messageText ([anonMsg, replyMsgT] ! 0))"
    by (simp add: messageText_examples shouldTrack_examples)
  have h3: "senderDisplay ([anonMsg, replyMsgT] ! 0) = []"
    by (simp add: senderDisplay_examples)
  from blank_sender_question_stays_outstanding [OF h1 h2 h3, of demoEnv] h1 h2 h3
  show ?thesis by blast
qed

section \<open>The order of the top links\<close>

lemma foundLinks_twoLinksMsg: "foundLinks twoLinksMsg = [S ''http://b.org'', S ''http://a.org'']"
  by (simp add: foundLinks_def messageText_def twoLinksMsg_def blankMessage_def extractURLs_def
      Fields_def S_def IsSpace_def HasPrefix_def TrimRight_def)

lemma linkCount_twoLinksMsg:
  "linkCount (run E 0 [twoLinksMsg] initial) = [(S ''http://b.org'', 1), (S ''http://a.org'', 1)]"
  by (simp add: linkCount_step foundLinks_twoLinksMsg initial_def) (simp add: S_def)

lemma valid_range_rev: "valid_range rev"
  by (simp add: valid_range_def)

text \<open>
  C2 fails on the code. \<^verbatim>\<open>topKKeys\<close> ranges over a map, whose order the Go runtime
  randomises, and sorts by count only (\<^verbatim>\<open>topK\<close> also compares the keys): one message
  with two links gives the top links in either order, depending on the order of the range.
\<close>

theorem top_links_depend_on_map_order:
  "valid_range (mapRange demoEnv) \<and> valid_range (mapRange (demoEnv\<lparr>mapRange := rev\<rparr>)) \<and>
   TopLinks (BuildSummary demoEnv [twoLinksMsg]) = [S ''http://b.org'', S ''http://a.org''] \<and>
   TopLinks (BuildSummary (demoEnv\<lparr>mapRange := rev\<rparr>) [twoLinksMsg]) =
     [S ''http://a.org'', S ''http://b.org'']"
proof -
  have m: "mapRange demoEnv m = m" for m by (simp add: demoEnv_def)
  have a: "TopLinks (BuildSummary demoEnv [twoLinksMsg]) = [S ''http://b.org'', S ''http://a.org'']"
    by (simp only: TopLinks_BuildSummary linkCount_twoLinksMsg)
       (simp add: topKKeys_def mapEntries_def sort_Slice_def m)
  have b: "TopLinks (BuildSummary (demoEnv\<lparr>mapRange := rev\<rparr>) [twoLinksMsg]) =
     [S ''http://a.org'', S ''http://b.org'']"
    by (simp only: TopLinks_BuildSummary linkCount_twoLinksMsg)
       (simp add: topKKeys_def mapEntries_def sort_Slice_def)
  from a b show ?thesis by (simp add: valid_range_demoEnv valid_range_rev)
qed

end
